theory Spec2Isabelle
  imports Complex_Main "HOL-Library.Multiset" "HOL-Library.List_Lexorder" "HOL-Library.Char_ord"
begin

section \<open>Data model\<close>

text \<open>
  The notebook \<^verbatim>\<open>opinion-models\<close> works on pandas data frames with the columns
  \<^verbatim>\<open>source\<close> and \<^verbatim>\<open>target\<close> (integer node identifiers) and on networkx graphs.
  A frame of edges is the list of its rows; a graph keeps its nodes in insertion order
  and each undirected edge once, as networkx does.
\<close>

type_synonym node = int
type_synonym edge_table = "(node \<times> node) list"

text \<open>
  The Python exceptions the modelled code can raise; \<open>LibraryError\<close> stands for any other
  exception that an external routine raises.
\<close>

datatype error =
  ValueError | KeyError | IndexError | AttributeError | NetworkXError | LibraryError

record graph =
  gnodes :: "node list"
  gedges :: "(node \<times> node) list"

definition empty_graph :: graph where
  "empty_graph = \<lparr>gnodes = [], gedges = []\<rparr>"

definition add_node :: "node \<Rightarrow> graph \<Rightarrow> graph" where
  "add_node n g = (if n \<in> set (gnodes g) then g else g\<lparr>gnodes := gnodes g @ [n]\<rparr>)"

definition add_edge :: "node \<times> node \<Rightarrow> graph \<Rightarrow> graph" where
  "add_edge e g =
     (let g1 = add_node (snd e) (add_node (fst e) g)
      in if e \<in> set (gedges g1) \<or> (snd e, fst e) \<in> set (gedges g1) then g1
         else g1\<lparr>gedges := gedges g1 @ [e]\<rparr>)"

text \<open>\<^verbatim>\<open>nx.from_pandas_edgelist(df)\<close>: one \<^verbatim>\<open>add_edge\<close> per row, in row order.\<close>

definition from_pandas_edgelist :: "edge_table \<Rightarrow> graph" where
  "from_pandas_edgelist df = fold add_edge df empty_graph"

definition add_nodes_from :: "node list \<Rightarrow> graph \<Rightarrow> graph" where
  "add_nodes_from ns g = fold add_node ns g"

text \<open>The adjacency of a node; a self-loop lists the node as its own neighbour.\<close>

definition neighbors :: "graph \<Rightarrow> node \<Rightarrow> node list" where
  "neighbors g x =
     remdups (map (\<lambda>e. if fst e = x then snd e else fst e)
                  (filter (\<lambda>e. fst e = x \<or> snd e = x) (gedges g)))"

text \<open>networkx counts a self-loop twice in the degree.\<close>

definition degree :: "graph \<Rightarrow> node \<Rightarrow> nat" where
  "degree g x = length (neighbors g x) + (if x \<in> set (neighbors g x) then 1 else 0)"

definition common_neighbors :: "graph \<Rightarrow> node \<Rightarrow> node \<Rightarrow> node list" where
  "common_neighbors g u v =
     filter (\<lambda>w. w \<in> set (neighbors g v) \<and> w \<noteq> u \<and> w \<noteq> v) (neighbors g u)"

section \<open>Negative examples\<close>

text \<open>\<^verbatim>\<open>np.unique\<close>: the distinct values, ascending.\<close>

definition np_unique :: "node list \<Rightarrow> node list" where
  "np_unique xs = sort (remdups xs)"

text \<open>
  \<^verbatim>\<open>pd.DataFrame(product(node_list, node_list))\<close> restricted to the rows with
  \<^verbatim>\<open>source < target\<close>; the notebook writes this twice, in \<^verbatim>\<open>add_negative_examples\<close>
  and in \<^verbatim>\<open>get_predicted_edges\<close>.
\<close>

definition pair_table :: "node list \<Rightarrow> edge_table" where
  "pair_table ns = filter (\<lambda>p. fst p < snd p) (List.product ns ns)"

text \<open>
  \<^verbatim>\<open>add_negative_examples\<close>. The input frame gets the column \<^verbatim>\<open>link = 1\<close>; the left
  merge on \<^verbatim>\<open>(source, target)\<close> yields, for each row of the pair table in order, one
  row per matching input row (with \<^verbatim>\<open>link = 1\<close>) or a single row with a missing
  \<^verbatim>\<open>link\<close>; finally \<^verbatim>\<open>link\<close> becomes \<^verbatim>\<open>link == 1\<close>.
\<close>

definition add_negative_examples :: "edge_table \<Rightarrow> ((node \<times> node) \<times> bool) list" where
  "add_negative_examples df =
     (let node_list = np_unique (map fst df @ map snd df);
          negative = pair_table node_list
      in concat (map (\<lambda>p. case filter (\<lambda>e. e = p) df of
                             [] \<Rightarrow> [(p, False)]
                           | ms \<Rightarrow> map (\<lambda>_. (p, True)) ms) negative))"

section \<open>External capabilities\<close>

text \<open>
  The notebook calls four routines that it does not define: Louvain community detection
  (\<^verbatim>\<open>nx.community.louvain_communities\<close>), PageRank (\<^verbatim>\<open>nx.pagerank_numpy\<close>, a
  dictionary keyed by the nodes of the graph), the logistic-regression fit
  (\<^verbatim>\<open>LogisticRegression(solver = "liblinear").fit\<close>, whose fitted model is used only
  through the second column of \<^verbatim>\<open>predict_proba\<close>) and \<^verbatim>\<open>nx.algorithms.community.modularity\<close>.
  They are parameters of the model; floating-point values are idealised as reals.
\<close>

record library =
  nx_louvain :: "graph \<Rightarrow> error + node set list"
  nx_pagerank :: "graph \<Rightarrow> node \<Rightarrow> real"
  lr_fit :: "(real list \<times> bool) list \<Rightarrow> error + (real list \<Rightarrow> real)"
  nx_modularity :: "graph \<Rightarrow> node set list \<Rightarrow> error + real"

text \<open>Sequencing of fallible computations: the first exception aborts.\<close>

definition ebind :: "error + 'a \<Rightarrow> ('a \<Rightarrow> error + 'b) \<Rightarrow> error + 'b" where
  "ebind m f = (case m of Inl e \<Rightarrow> Inl e | Inr x \<Rightarrow> f x)"

section \<open>Community labels\<close>

text \<open>
  \<^verbatim>\<open>louvain_communities(G, return_partition)\<close>: the label of a node is the index of the
  community holding it; \<^verbatim>\<open>labels[i]\<close> raises when the label list is shorter than the
  node list. The model returns both the dictionary and the partition; a caller without
  \<^verbatim>\<open>return_partition\<close> takes the first component.
\<close>

definition louvain_communities ::
  "library \<Rightarrow> graph \<Rightarrow> error + ((node \<times> nat) list \<times> node set list)" where
  "louvain_communities lib g =
     ebind (nx_louvain lib g) (\<lambda>cs.
       let labels = concat (map (\<lambda>i. filter (\<lambda>l. i \<in> cs ! l) [0..<length cs]) (gnodes g));
           node_list = gnodes g
       in if length labels < length node_list then Inl IndexError
          else Inr (zip node_list labels, cs))"

section \<open>Feature engineering\<close>

definition digit_char :: "nat \<Rightarrow> char" where
  "digit_char d = ''0123456789'' ! d"

function str_nat :: "nat \<Rightarrow> string" where
  "str_nat n = (if n < 10 then [digit_char n] else str_nat (n div 10) @ [digit_char (n mod 10)])"
  by pat_completeness auto
termination
  by (relation "measure (\<lambda>n. n)") auto

record feature_row =
  deg_source :: nat
  deg_target :: nat
  pr_source :: real
  pr_target :: real
  common_neighbors_count :: nat
  combined_comm :: string

definition pair_features ::
  "library \<Rightarrow> graph \<Rightarrow> (node \<times> nat) list \<Rightarrow> node \<times> node \<Rightarrow> feature_row" where
  "pair_features lib g cd p =
     \<lparr>deg_source = degree g (fst p),
      deg_target = degree g (snd p),
      pr_source = nx_pagerank lib g (fst p),
      pr_target = nx_pagerank lib g (snd p),
      common_neighbors_count = length (common_neighbors g (fst p) (snd p)),
      combined_comm = ''C'' @ str_nat (the (map_of cd (fst p))) @ str_nat (the (map_of cd (snd p)))\<rparr>"

text \<open>
  \<^verbatim>\<open>compute_features(df, G, comm_dict)\<close> on the frame with the key rows \<open>df\<close> and the
  optional column \<^verbatim>\<open>link\<close>. \<^verbatim>\<open>not G\<close> holds for a missing graph and for a graph without
  nodes, \<^verbatim>\<open>not comm_dict\<close> for a missing and for an empty dictionary. The columns are
  then filled in the order of the source:
  \<^item> \<^verbatim>\<open>G.degree(x)\<close> raises \<^verbatim>\<open>NetworkXError\<close> for a node that the graph does not hold
    (before \<^verbatim>\<open>page_rank[x]\<close> could miss the key);
  \<^item> \<^verbatim>\<open>comm_dict[x]\<close> raises \<^verbatim>\<open>KeyError\<close> for a node without a label;
  \<^item> on a frame without rows none of these look-ups happens, and the row-wise
    \<^verbatim>\<open>apply\<close> for \<^verbatim>\<open>common_neighbors\<close> returns a frame of two columns, whose assignment
    to the single column raises \<^verbatim>\<open>ValueError\<close>.
  The result is the list of feature rows; the indicator columns of \<^verbatim>\<open>pd.get_dummies\<close>
  are the one-hot encoding of \<open>combined_comm\<close> (see \<open>dummy_columns\<close>).
\<close>

definition compute_features ::
  "library \<Rightarrow> edge_table \<Rightarrow> bool list option \<Rightarrow> graph option \<Rightarrow> (node \<times> nat) list option
     \<Rightarrow> error + feature_row list" where
  "compute_features lib df link G_arg comm_dict_arg =
     (let build = (case link of
                     None \<Rightarrow> Inl KeyError
                   | Some ls \<Rightarrow> Inr (from_pandas_edgelist (map fst (filter snd (zip df ls)))))
      in ebind (case G_arg of
                  None \<Rightarrow> build
                | Some g \<Rightarrow> if gnodes g = [] then build else Inr g) (\<lambda>g.
         ebind (case comm_dict_arg of
                  None \<Rightarrow> ebind (louvain_communities lib g) (\<lambda>r. Inr (fst r))
                | Some cd \<Rightarrow> if cd = [] then ebind (louvain_communities lib g) (\<lambda>r. Inr (fst r))
                            else Inr cd) (\<lambda>cd.
           if \<exists>p\<in>set df. fst p \<notin> set (gnodes g) \<or> snd p \<notin> set (gnodes g)
           then Inl NetworkXError
           else if \<exists>p\<in>set df. map_of cd (fst p) = None \<or> map_of cd (snd p) = None
                then Inl KeyError
           else if df = [] then Inl ValueError
           else Inr (map (pair_features lib g cd) df))))"

text \<open>The indicator columns: one per combination that occurs, in ascending order.\<close>

definition dummy_columns :: "feature_row list \<Rightarrow> string list" where
  "dummy_columns fs = sort (remdups (map combined_comm fs))"

definition feature_names :: "feature_row list \<Rightarrow> string list" where
  "feature_names fs =
     [''deg_source'', ''deg_target'', ''pr_source'', ''pr_target'', ''common_neighbors'']
       @ dummy_columns fs"

definition column_value :: "feature_row \<Rightarrow> string \<Rightarrow> real" where
  "column_value r c =
     (if c = ''deg_source'' then real (deg_source r)
      else if c = ''deg_target'' then real (deg_target r)
      else if c = ''pr_source'' then pr_source r
      else if c = ''pr_target'' then pr_target r
      else if c = ''common_neighbors'' then real (common_neighbors_count r)
      else if c = combined_comm r then 1 else 0)"

text \<open>\<^verbatim>\<open>df[cols]\<close>: \<^verbatim>\<open>KeyError\<close> when a requested column is not in the frame.\<close>

definition select_columns :: "string list \<Rightarrow> feature_row list \<Rightarrow> error + real list list" where
  "select_columns cols fs =
     (if \<exists>c\<in>set cols. c \<notin> set (feature_names fs) then Inl KeyError
      else Inr (map (\<lambda>r. map (column_value r) cols) fs))"

section \<open>The simulator\<close>

record simulator =
  edge_df :: edge_table
  G :: graph
  node_list :: "node list"
  comm_dict :: "(node \<times> nat) list"
  comms :: "node set list"
  train_df :: "(((node \<times> node) \<times> bool) \<times> feature_row) list option"
  feature_cols :: "string list option"
  model :: "(real list \<Rightarrow> real) option"

text \<open>
  \<^verbatim>\<open>__init__\<close>. The notebook constructs the simulator without keyword arguments, so
  \<^verbatim>\<open>self.kwargs\<close> is empty and is left out. The attributes \<^verbatim>\<open>train_df\<close>,
  \<^verbatim>\<open>feature_cols\<close> and \<^verbatim>\<open>model\<close> do not exist yet. A method that raises returns the
  exception alone: the state an aborted call leaves behind is not modelled.
\<close>

definition init :: "library \<Rightarrow> edge_table \<Rightarrow> error + simulator" where
  "init lib df =
     (let g = from_pandas_edgelist df
      in ebind (louvain_communities lib g) (\<lambda>r.
           Inr \<lparr>edge_df = df, G = g, node_list = gnodes g, comm_dict = fst r, comms = snd r,
                train_df = None, feature_cols = None, model = None\<rparr>))"

definition prep_data :: "library \<Rightarrow> simulator \<Rightarrow> error + simulator" where
  "prep_data lib s =
     (let t = add_negative_examples (edge_df s)
      in ebind (compute_features lib (map fst t) (Some (map snd t)) None (Some (comm_dict s)))
           (\<lambda>fs. Inr (s\<lparr>train_df := Some (zip t fs), feature_cols := Some (feature_names fs)\<rparr>)))"

definition train_model :: "library \<Rightarrow> simulator \<Rightarrow> error + simulator" where
  "train_model lib s =
     (case train_df s of
        None \<Rightarrow> Inl AttributeError
      | Some t \<Rightarrow>
         (case feature_cols s of
            None \<Rightarrow> Inl AttributeError
          | Some cols \<Rightarrow>
              ebind (select_columns cols (map snd t)) (\<lambda>X.
              ebind (lr_fit lib (zip X (map (\<lambda>r. snd (fst r)) t))) (\<lambda>m.
                Inr (s\<lparr>model := Some m\<rparr>)))))"

text \<open>\<^verbatim>\<open>DataFrame.head(n)\<close>: a negative \<open>n\<close> drops the last \<open>-n\<close> rows.\<close>

definition head :: "int \<Rightarrow> 'a list \<Rightarrow> 'a list" where
  "head n xs = (if 0 \<le> n then take (nat n) xs else take (length xs - nat (- n)) xs)"

text \<open>
  \<^verbatim>\<open>get_predicted_edges\<close>. Of the outer merge with indicator only the rows marked
  \<^verbatim>\<open>left_only\<close> are kept: the candidate pairs whose key is in no row of \<^verbatim>\<open>self.edge_df\<close>.
  The fitted model is used row by row, as a function from the selected feature values
  to the score. pandas fixes neither the order in which the merge hands these rows to the
  sort nor the order of rows with equal \<^verbatim>\<open>edge_score\<close> (the default sort is not stable);
  the model keeps the rows in pair-table order and sorts stably. No statement below
  depends on the order among equal scores.
\<close>

definition get_predicted_edges :: "library \<Rightarrow> simulator \<Rightarrow> int \<Rightarrow> error + edge_table" where
  "get_predicted_edges lib s m_replace =
     (let pairs = pair_table (node_list s)
      in ebind (compute_features lib pairs None (Some (G s)) (Some (comm_dict s))) (\<lambda>fs.
           case model s of
             None \<Rightarrow> Inl AttributeError
           | Some m \<Rightarrow>
              (case feature_cols s of
                 None \<Rightarrow> Inl AttributeError
               | Some cols \<Rightarrow>
                   ebind (select_columns cols fs) (\<lambda>X.
                     let scored = zip pairs (map m X);
                         left_only = filter (\<lambda>r. fst r \<notin> set (edge_df s)) scored;
                         ranked = sort_key (\<lambda>r. - snd r) left_only
                     in Inr (map fst (head m_replace ranked))))))"

text \<open>
  \<^verbatim>\<open>DataFrame.sample(n)\<close> draws \<open>n\<close> rows without replacement. The random source is the
  explicit stream \<open>rnd\<close>: draw \<open>k\<close> picks position \<open>rnd k mod length xs\<close> of the rows not
  yet drawn. A negative \<open>n\<close> and an \<open>n\<close> above the number of rows raise \<^verbatim>\<open>ValueError\<close>.
\<close>

fun draw :: "(nat \<Rightarrow> nat) \<Rightarrow> nat \<Rightarrow> 'a list \<Rightarrow> nat \<Rightarrow> 'a list" where
  "draw rnd k xs 0 = []"
| "draw rnd k [] (Suc n) = []"
| "draw rnd k (x # xs) (Suc n) =
     (let i = rnd k mod length (x # xs)
      in ((x # xs) ! i) # draw rnd (Suc k) (take i (x # xs) @ drop (Suc i) (x # xs)) n)"

definition sample :: "(nat \<Rightarrow> nat) \<Rightarrow> 'a list \<Rightarrow> int \<Rightarrow> error + 'a list" where
  "sample rnd xs n =
     (if n < 0 \<or> int (length xs) < n then Inl ValueError else Inr (draw rnd 0 xs (nat n)))"

definition update_edges ::
  "library \<Rightarrow> (nat \<Rightarrow> nat) \<Rightarrow> simulator \<Rightarrow> int \<Rightarrow> error + simulator" where
  "update_edges lib rnd s m_replace =
     ebind (sample rnd (edge_df s) (int (length (edge_df s)) - m_replace)) (\<lambda>kept.
       let s1 = s\<lparr>edge_df := kept\<rparr>
       in ebind (get_predicted_edges lib s1 m_replace) (\<lambda>new_edges.
            Inr (s1\<lparr>edge_df := kept @ new_edges\<rparr>)))"

definition step ::
  "library \<Rightarrow> (nat \<Rightarrow> nat) \<Rightarrow> simulator \<Rightarrow> int \<Rightarrow> bool \<Rightarrow> error + simulator" where
  "step lib rnd s m_replace train =
     ebind (prep_data lib s) (\<lambda>s1.
     ebind (train_model lib s1) (\<lambda>s2.
     ebind (update_edges lib rnd s2 m_replace) (\<lambda>s3.
       Inr (s3\<lparr>G := add_nodes_from (node_list s3) (from_pandas_edgelist (edge_df s3))\<rparr>))))"

text \<open>A driver loop: consecutive calls of \<^verbatim>\<open>step\<close>, each with its own random draws.\<close>

fun steps ::
  "library \<Rightarrow> simulator \<Rightarrow> ((nat \<Rightarrow> nat) \<times> int \<times> bool) list \<Rightarrow> error + simulator" where
  "steps lib s [] = Inr s"
| "steps lib s (c # cs) =
     (case step lib (fst c) s (fst (snd c)) (snd (snd c)) of
        Inl e \<Rightarrow> Inl e
      | Inr s' \<Rightarrow> steps lib s' cs)"

section \<open>Measurements\<close>

text \<open>
  \<^verbatim>\<open>degree_gini\<close>. \<^verbatim>\<open>np.subtract.outer(degs, degs)\<close> is the matrix of all differences and
  \<^verbatim>\<open>.mean()\<close> averages its \<open>n * n\<close> entries. numpy returns \<^verbatim>\<open>nan\<close> (no exception) when
  the degree list is empty or its mean is zero; that is the value \<open>None\<close>.
\<close>

definition degree_gini :: "simulator \<Rightarrow> real option" where
  "degree_gini s =
     (let degs = map (\<lambda>i. real (degree (G s) i)) (gnodes (G s));
          n = real (length degs)
      in if degs = [] \<or> sum_list degs = 0 then None
         else (let mad = sum_list (map (\<lambda>x. sum_list (map (\<lambda>y. \<bar>x - y\<bar>) degs)) degs) / (n * n);
                   rmad = mad / (sum_list degs / n);
                   g = 0.5 * rmad
               in Some g))"

definition modularity :: "library \<Rightarrow> simulator \<Rightarrow> error + real" where
  "modularity lib s = nx_modularity lib (G s) (comms s)"

section \<open>Quantities named by the specification\<close>

text \<open>The node universe of an edge table: every identifier in either column.\<close>

definition nodes_of :: "edge_table \<Rightarrow> node set" where
  "nodes_of df = fst ` set df \<union> snd ` set df"

text \<open>The degree sequence of the current snapshot, in node order.\<close>

definition degrees :: "simulator \<Rightarrow> real list" where
  "degrees s = map (\<lambda>i. real (degree (G s) i)) (gnodes (G s))"

definition mean :: "real list \<Rightarrow> real" where
  "mean xs = sum_list xs / real (length xs)"

text \<open>The mean absolute difference over all ordered pairs of positions.\<close>

definition mean_abs_diff :: "real list \<Rightarrow> real" where
  "mean_abs_diff xs =
     (\<Sum>i<length xs. \<Sum>j<length xs. \<bar>xs ! i - xs ! j\<bar>) / (real (length xs) * real (length xs))"

section \<open>Well-formed simulator states\<close>

text \<open>A simple edge table: no row twice, and \<open>source < target\<close> in every row.\<close>

definition simple_table :: "edge_table \<Rightarrow> bool" where
  "simple_table df = (distinct df \<and> list_all (\<lambda>e. fst e < snd e) df)"

text \<open>
  The node universe is in order when the look-ups of \<open>compute_features\<close> on the candidate
  table cannot fail: it is not empty, every node has a community label, and every node
  is in the current graph.
\<close>

definition universe_ok :: "simulator \<Rightarrow> bool" where
  "universe_ok s =
     (node_list s \<noteq> []
      \<and> list_all (\<lambda>x. map_of (comm_dict s) x \<noteq> None) (node_list s)
      \<and> list_all (\<lambda>x. x \<in> set (gnodes (G s))) (node_list s))"

text \<open>
  The state invariant of a simulator built by \<open>init\<close> from a non-empty simple edge
  table: the node universe is as above and without repetitions, and the edge table is
  simple and over the universe.
\<close>

definition wf_sim :: "simulator \<Rightarrow> bool" where
  "wf_sim s =
     (universe_ok s \<and> distinct (node_list s)
      \<and> simple_table (edge_df s)
      \<and> list_all (\<lambda>e. fst e \<in> set (node_list s) \<and> snd e \<in> set (node_list s)) (edge_df s))"

text \<open>The candidate pairs: the rows of the pair table that are in no row of the edge table.\<close>

definition candidates :: "simulator \<Rightarrow> edge_table" where
  "candidates s = filter (\<lambda>p. p \<notin> set (edge_df s)) (pair_table (node_list s))"

text \<open>
  The number of non-edge pairs over the node universe once \<open>r\<close> edges have been removed:
  all pairs less the edges that remain.
\<close>

definition available :: "simulator \<Rightarrow> int \<Rightarrow> nat" where
  "available s r = length (pair_table (node_list s)) - (length (edge_df s) - nat r)"

text \<open>
  The value of the column \<^verbatim>\<open>edge_score\<close> for a pair: the fitted model applied to the stored
  feature columns of the row computed against the current graph and the stored labels.
\<close>

definition edge_score :: "library \<Rightarrow> simulator \<Rightarrow> node \<times> node \<Rightarrow> real" where
  "edge_score lib s p =
     the (model s) (map (column_value (pair_features lib (G s) (comm_dict s) p))
                        (the (feature_cols s)))"

text \<open>
  A simulator is ready to predict when a model has been fitted and every stored feature
  column is a column of the candidate table.
\<close>

definition ready :: "library \<Rightarrow> simulator \<Rightarrow> bool" where
  "ready lib s =
     (case model s of
        None \<Rightarrow> False
      | Some m \<Rightarrow>
         (case feature_cols s of
            None \<Rightarrow> False
          | Some cols \<Rightarrow>
              list_all (\<lambda>c. c \<in> set (feature_names
                  (map (pair_features lib (G s) (comm_dict s)) (pair_table (node_list s))))) cols))"

section \<open>Example inputs\<close>

text \<open>The complete graph on four nodes.\<close>

definition K4 :: edge_table where
  "K4 = [(1, 2), (1, 3), (1, 4), (2, 3), (2, 4), (3, 4)]"

text \<open>A simulator on the path \<open>2 - 1 - 3\<close>, as \<open>init\<close> leaves it with a single community.\<close>

definition sim0 :: simulator where
  "sim0 = \<lparr>edge_df = [(1, 2), (1, 3)],
           G = \<lparr>gnodes = [1, 2, 3], gedges = [(1, 2), (1, 3)]\<rparr>,
           node_list = [1, 2, 3],
           comm_dict = [(1, 0), (2, 0), (3, 0)],
           comms = [{1, 2, 3}],
           train_df = None, feature_cols = None, model = None\<rparr>"

text \<open>
  A stand-in for the external routines: Louvain returns a single community, the PageRank
  of node \<open>x\<close> is \<open>1 / x\<close>, and every fit returns the model that scores a row by
  \<^verbatim>\<open>pr_source + pr_target\<close> (columns 2 and 3 of the feature matrix).
\<close>

definition lib1 :: library where
  "lib1 = \<lparr>nx_louvain = (\<lambda>g. Inr [set (gnodes g)]),
          nx_pagerank = (\<lambda>g x. 1 / of_int x),
          lr_fit = (\<lambda>t. Inr (\<lambda>v. v ! 2 + v ! 3)),
          nx_modularity = (\<lambda>g cs. Inr 0)\<rparr>"

text \<open>Two disjoint edges on four nodes.\<close>

definition matching :: edge_table where
  "matching = [(1, 2), (3, 4)]"

section \<open>Facts about the pair table\<close>

lemma set_pair_table:
  "set (pair_table ns) = {p. fst p \<in> set ns \<and> snd p \<in> set ns \<and> fst p < snd p}"
  by (auto simp: pair_table_def)

lemma distinct_pair_table: "distinct ns \<Longrightarrow> distinct (pair_table ns)"
  by (simp add: pair_table_def distinct_product)

lemma length_filter_product_Cons:
  "length (filter P (List.product xs (y # ys))) =
     length (filter (\<lambda>a. P (a, y)) xs) + length (filter P (List.product xs ys))"
  by (induction xs) auto

lemma length_filter_less_greater:
  fixes x :: node
  assumes "x \<notin> set xs"
  shows "length (filter (\<lambda>y. x < y) xs) + length (filter (\<lambda>a. a < x) xs) = length xs"
proof -
  have "filter (\<lambda>a. a < x) xs = filter (\<lambda>y. \<not> x < y) xs"
    using assms by (intro filter_cong) (auto simp: not_less le_less)
  then show ?thesis by (simp add: sum_length_filter_compl)
qed

lemma length_pair_table: "distinct ns \<Longrightarrow> length (pair_table ns) = length ns choose 2"
proof (induction ns)
  case Nil
  then show ?case by (simp add: pair_table_def)
next
  case (Cons x xs)
  have "length (pair_table (x # xs)) =
          length (filter (\<lambda>y. x < y) xs) + length (filter (\<lambda>a. a < x) xs) + length (pair_table xs)"
    by (simp add: pair_table_def length_filter_product_Cons filter_map o_def)
  also have "\<dots> = length xs + (length xs choose 2)"
    using Cons by (simp add: length_filter_less_greater)
  finally show ?case by (simp add: numeral_2_eq_2)
qed

lemma filter_eq_distinct:
  "distinct xs \<Longrightarrow> filter (\<lambda>e. e = p) xs = (if p \<in> set xs then [p] else [])"
  by (induction xs) auto

lemma add_negative_examples_distinct:
  assumes "distinct df"
  shows "add_negative_examples df =
           map (\<lambda>p. (p, p \<in> set df)) (pair_table (np_unique (map fst df @ map snd df)))"
proof -
  have "(\<lambda>p. case filter (\<lambda>e. e = p) df of [] \<Rightarrow> [(p, False)] | ms \<Rightarrow> map (\<lambda>_. (p, True)) ms)
          = (\<lambda>p. [(p, p \<in> set df)])"
    using assms by (auto simp: filter_eq_distinct fun_eq_iff)
  then show ?thesis
    by (simp add: add_negative_examples_def Let_def concat_map_singleton)
qed

lemma set_np_unique: "set (np_unique xs) = set xs"
  by (simp add: np_unique_def)

lemma distinct_np_unique: "distinct (np_unique xs)"
  by (simp add: np_unique_def)

lemma length_np_unique: "length (np_unique xs) = card (set xs)"
  by (simp add: np_unique_def length_remdups_card_conv)

section \<open>The table of negative examples\<close>

text \<open>
  Claim C3. For an edge table whose rows are pairwise different and have
  \<open>source < target\<close>, \<open>add_negative_examples\<close> returns one row for each pair of nodes of
  the table with \<open>source < target\<close>: the number of rows is \<open>n choose 2\<close> for \<open>n\<close>
  distinct nodes, no key occurs twice, the keys are exactly the ordered pairs over the
  nodes, the label of a row is true if and only if its key is a row of the input, and
  every input row has its row labelled true.
\<close>

theorem add_negative_examples_all_pairs:
  assumes "distinct df" and "\<forall>e\<in>set df. fst e < snd e"
  shows "length (add_negative_examples df) = card (nodes_of df) choose 2
       \<and> distinct (map fst (add_negative_examples df))
       \<and> fst ` set (add_negative_examples df) =
            {p. fst p \<in> nodes_of df \<and> snd p \<in> nodes_of df \<and> fst p < snd p}
       \<and> (\<forall>r\<in>set (add_negative_examples df). snd r = (fst r \<in> set df))
       \<and> (\<forall>e\<in>set df. (e, True) \<in> set (add_negative_examples df))"
proof -
  define ns where "ns = np_unique (map fst df @ map snd df)"
  have set_ns: "set ns = nodes_of df"
    by (simp add: ns_def set_np_unique nodes_of_def)
  have eq: "add_negative_examples df = map (\<lambda>p. (p, p \<in> set df)) (pair_table ns)"
    unfolding ns_def by (rule add_negative_examples_distinct [OF assms(1)])
  have keys: "map fst (add_negative_examples df) = pair_table ns"
    by (simp add: eq o_def)
  have "length ns = card (nodes_of df)"
    by (simp add: ns_def length_np_unique nodes_of_def)
  then have c1: "length (add_negative_examples df) = card (nodes_of df) choose 2"
    using length_pair_table [of ns] by (simp add: eq ns_def distinct_np_unique)
  have c2: "distinct (map fst (add_negative_examples df))"
    unfolding keys by (rule distinct_pair_table) (simp add: ns_def distinct_np_unique)
  have "fst ` set (add_negative_examples df) = set (map fst (add_negative_examples df))"
    by simp
  then have c3: "fst ` set (add_negative_examples df) =
            {p. fst p \<in> nodes_of df \<and> snd p \<in> nodes_of df \<and> fst p < snd p}"
    unfolding keys by (simp add: set_pair_table set_ns)
  have c4: "\<forall>r\<in>set (add_negative_examples df). snd r = (fst r \<in> set df)"
    by (auto simp: eq)
  have c5: "\<forall>e\<in>set df. (e, True) \<in> set (add_negative_examples df)"
  proof
    fix e assume e: "e \<in> set df"
    then have "fst e \<in> nodes_of df" "snd e \<in> nodes_of df" "fst e < snd e"
      using assms(2) by (auto simp: nodes_of_def)
    then have "e \<in> set (pair_table ns)" by (simp add: set_pair_table set_ns)
    with e show "(e, True) \<in> set (add_negative_examples df)" by (auto simp: eq)
  qed
  from c1 c2 c3 c4 c5 show ?thesis by blast
qed

text \<open>On the complete graph with four nodes all six rows are labelled true.\<close>

theorem add_negative_examples_all_pairs_witness:
  "distinct K4 \<and> list_all (\<lambda>e. fst e < snd e) K4
     \<and> card (nodes_of K4) = 4
     \<and> length (add_negative_examples K4) = card (nodes_of K4) choose 2
     \<and> add_negative_examples K4 = map (\<lambda>e. (e, True)) K4"
proof -
  have h1: "distinct K4" by (simp add: K4_def)
  have h2: "\<forall>e\<in>set K4. fst e < snd e" by (simp add: K4_def)
  have h2': "list_all (\<lambda>e. fst e < snd e) K4" by (simp add: K4_def)
  have "nodes_of K4 = {1, 2, 3, 4}" by (auto simp: K4_def nodes_of_def)
  then have n: "card (nodes_of K4) = 4" by simp
  have v: "add_negative_examples K4 = map (\<lambda>e. (e, True)) K4"
    by (simp add: K4_def add_negative_examples_def np_unique_def pair_table_def)
  have c: "length (add_negative_examples K4) = card (nodes_of K4) choose 2"
    by (rule add_negative_examples_all_pairs [OF h1 h2, THEN conjunct1])
  show ?thesis using h1 h2' n c v by blast
qed

section \<open>The degree inequality index\<close>

lemma abs_diff_row_le:
  fixes x :: real
  assumes "0 \<le> x" "\<forall>y\<in>set ys. 0 \<le> y"
  shows "(\<Sum>y\<leftarrow>ys. \<bar>x - y\<bar>) \<le> real (length ys) * x + sum_list ys"
  using assms by (induction ys) (auto simp: algebra_simps)

lemma abs_diff_row_member:
  fixes x :: real
  assumes "0 \<le> x" "\<forall>y\<in>set ys. 0 \<le> y" "x \<in> set ys"
  shows "(\<Sum>y\<leftarrow>ys. \<bar>x - y\<bar>) + 2 * x \<le> real (length ys) * x + sum_list ys"
  using assms
proof (induction ys)
  case Nil
  then show ?case by simp
next
  case (Cons y ys)
  show ?case
  proof (cases "x = y")
    case True
    have "(\<Sum>z\<leftarrow>ys. \<bar>x - z\<bar>) \<le> real (length ys) * x + sum_list ys"
      using Cons.prems by (intro abs_diff_row_le) auto
    with True show ?thesis by (simp add: algebra_simps)
  next
    case False
    with Cons.prems have "x \<in> set ys" by simp
    with Cons have "(\<Sum>z\<leftarrow>ys. \<bar>x - z\<bar>) + 2 * x \<le> real (length ys) * x + sum_list ys" by simp
    moreover have "\<bar>x - y\<bar> \<le> x + y" using Cons.prems by (simp add: abs_le_iff)
    ultimately show ?thesis by (simp add: algebra_simps)
  qed
qed

lemma abs_diff_total:
  fixes ds :: "real list"
  assumes "\<forall>y\<in>set ds. 0 \<le> y"
  shows "(\<Sum>x\<leftarrow>ds. \<Sum>y\<leftarrow>ds. \<bar>x - y\<bar>) + 2 * sum_list ds \<le> 2 * real (length ds) * sum_list ds"
proof -
  have "(\<Sum>x\<leftarrow>ds. (\<Sum>y\<leftarrow>ds. \<bar>x - y\<bar>) + 2 * x) \<le> (\<Sum>x\<leftarrow>ds. real (length ds) * x + sum_list ds)"
    using assms by (intro sum_list_mono abs_diff_row_member) auto
  moreover have "(\<Sum>x\<leftarrow>ds. (\<Sum>y\<leftarrow>ds. \<bar>x - y\<bar>) + 2 * x) = (\<Sum>x\<leftarrow>ds. \<Sum>y\<leftarrow>ds. \<bar>x - y\<bar>) + 2 * sum_list ds"
    by (simp add: sum_list_addf sum_list_const_mult)
  moreover have "(\<Sum>x\<leftarrow>ds. real (length ds) * x + sum_list ds) = 2 * real (length ds) * sum_list ds"
    by (simp add: sum_list_addf sum_list_const_mult sum_list_triv)
  ultimately show ?thesis by simp
qed

lemma abs_diff_total_nonneg:
  fixes ds :: "real list"
  shows "0 \<le> (\<Sum>x\<leftarrow>ds. \<Sum>y\<leftarrow>ds. \<bar>x - y\<bar>)"
  by (intro sum_list_nonneg) (auto intro!: sum_list_nonneg)

lemma outer_sum_nth:
  fixes ds :: "real list"
  shows "(\<Sum>x\<leftarrow>ds. \<Sum>y\<leftarrow>ds. \<bar>x - y\<bar>) = (\<Sum>i<length ds. \<Sum>j<length ds. \<bar>ds ! i - ds ! j\<bar>)"
proof -
  have "(\<Sum>x\<leftarrow>ds. \<Sum>y\<leftarrow>ds. \<bar>x - y\<bar>) = (\<Sum>x\<leftarrow>ds. \<Sum>j<length ds. \<bar>x - ds ! j\<bar>)"
    by (simp add: sum_list_sum_nth atLeast0LessThan)
  also have "\<dots> = (\<Sum>i<length ds. \<Sum>j<length ds. \<bar>ds ! i - ds ! j\<bar>)"
    by (simp add: sum_list_sum_nth atLeast0LessThan)
  finally show ?thesis .
qed

text \<open>
  Claim C8. When the mean of the degree sequence is positive, \<open>degree_gini\<close> returns
  one half of the mean absolute pairwise difference of the degrees divided by the mean
  degree, and the value is at least 0 and below 1. Floating-point arithmetic is read as
  arithmetic on the reals.
\<close>

theorem degree_gini_value:
  assumes "0 < mean (degrees s)"
  shows "\<exists>g. degree_gini s = Some g
           \<and> g = (1 / 2) * (mean_abs_diff (degrees s) / mean (degrees s))
           \<and> 0 \<le> g \<and> g < 1"
proof -
  define ds where "ds = degrees s"
  define n where "n = real (length ds)"
  define S where "S = (\<Sum>x\<leftarrow>ds. \<Sum>y\<leftarrow>ds. \<bar>x - y\<bar>)"
  have nonneg: "\<forall>y\<in>set ds. 0 \<le> y" by (auto simp: ds_def degrees_def)
  have mean_pos: "0 < sum_list ds / n" using assms by (simp add: mean_def ds_def n_def)
  have ne: "ds \<noteq> []" using mean_pos by auto
  then have n_pos: "0 < n" by (simp add: n_def)
  with mean_pos have sum_pos: "0 < sum_list ds" by (simp add: zero_less_divide_iff)
  have val: "degree_gini s = Some (0.5 * (S / (n * n) / (sum_list ds / n)))"
    using ne sum_pos
    by (simp add: degree_gini_def Let_def S_def n_def ds_def degrees_def)
  have spec: "mean_abs_diff ds = S / (n * n)"
    by (simp add: mean_abs_diff_def S_def n_def outer_sum_nth)
  have "S + 2 * sum_list ds \<le> 2 * n * sum_list ds"
    unfolding S_def n_def by (rule abs_diff_total [OF nonneg])
  with sum_pos have lt: "S < 2 * n * sum_list ds" by simp
  have S0: "0 \<le> S" unfolding S_def by (rule abs_diff_total_nonneg)
  have eq: "0.5 * (S / (n * n) / (sum_list ds / n)) = S / (2 * n * sum_list ds)"
    using n_pos sum_pos by (simp add: field_simps)
  have "0 \<le> S / (2 * n * sum_list ds)" using S0 n_pos sum_pos by simp
  moreover have "S / (2 * n * sum_list ds) < 1" using lt n_pos sum_pos by simp
  ultimately show ?thesis
    using val spec eq by (simp add: ds_def mean_def n_def)
qed

theorem degree_gini_value_witness:
  "0 < mean (degrees sim0) \<and> degree_gini sim0 = Some (1 / 6) \<and>
   (\<exists>g. degree_gini sim0 = Some g \<and> g = (1 / 2) * (mean_abs_diff (degrees sim0) / mean (degrees sim0)) \<and> 0 \<le> g \<and> g < 1)"
proof -
  have d: "degrees sim0 = [2, 1, 1]"
    by (simp add: sim0_def degrees_def degree_def neighbors_def)
  have h: "0 < mean (degrees sim0)" by (simp add: d mean_def)
  have v: "degree_gini sim0 = Some (1 / 6)"
    by (simp add: sim0_def degree_gini_def degree_def neighbors_def)
  show ?thesis using degree_gini_value [OF h] h v by blast
qed

section \<open>Graphs, samples and rankings\<close>

subsection \<open>Graph construction\<close>

lemma set_gnodes_add_node: "set (gnodes (add_node n g)) = insert n (set (gnodes g))"
  by (auto simp: add_node_def)

lemma distinct_gnodes_add_node: "distinct (gnodes g) \<Longrightarrow> distinct (gnodes (add_node n g))"
  by (simp add: add_node_def)

lemma set_gnodes_add_edge:
  "set (gnodes (add_edge e g)) = insert (fst e) (insert (snd e) (set (gnodes g)))"
  by (auto simp: add_edge_def Let_def set_gnodes_add_node)

lemma distinct_gnodes_add_edge: "distinct (gnodes g) \<Longrightarrow> distinct (gnodes (add_edge e g))"
  by (simp add: add_edge_def Let_def distinct_gnodes_add_node)

lemma set_gnodes_fold_add_edge:
  "set (gnodes (fold add_edge df g)) = nodes_of df \<union> set (gnodes g)"
  by (induction df arbitrary: g) (auto simp: set_gnodes_add_edge nodes_of_def)

lemma distinct_gnodes_fold_add_edge:
  "distinct (gnodes g) \<Longrightarrow> distinct (gnodes (fold add_edge df g))"
  by (induction df arbitrary: g) (auto simp: distinct_gnodes_add_edge)

lemma set_gnodes_from_pandas_edgelist: "set (gnodes (from_pandas_edgelist df)) = nodes_of df"
  by (simp add: from_pandas_edgelist_def set_gnodes_fold_add_edge empty_graph_def)

lemma distinct_gnodes_from_pandas_edgelist: "distinct (gnodes (from_pandas_edgelist df))"
  by (simp add: from_pandas_edgelist_def distinct_gnodes_fold_add_edge empty_graph_def)

lemma set_gnodes_add_nodes_from: "set (gnodes (add_nodes_from ns g)) = set ns \<union> set (gnodes g)"
  unfolding add_nodes_from_def
  by (induction ns arbitrary: g) (auto simp: set_gnodes_add_node)

subsection \<open>Sampling without replacement\<close>

lemma mset_draw: "mset (draw rnd k xs n) \<subseteq># mset xs"
proof (induction rnd k xs n rule: draw.induct)
  case (3 rnd k x xs n)
  define ys where "ys = x # xs"
  define i where "i = rnd k mod length ys"
  have i: "i < length ys" by (simp add: i_def ys_def)
  have "mset ys = mset (take i ys @ ys ! i # drop (Suc i) ys)"
    by (rule arg_cong [OF id_take_nth_drop [OF i]])
  then have split: "mset ys = add_mset (ys ! i) (mset (take i ys @ drop (Suc i) ys))"
    by simp
  have "mset (draw rnd (Suc k) (take i ys @ drop (Suc i) ys) n) \<subseteq># mset (take i ys @ drop (Suc i) ys)"
    using "3.IH" [of i] by (simp add: i_def ys_def)
  then have "add_mset (ys ! i) (mset (draw rnd (Suc k) (take i ys @ drop (Suc i) ys) n)) \<subseteq># mset ys"
    by (subst split) simp
  then show ?case by (simp add: Let_def i_def ys_def)
qed simp_all

lemma length_draw: "n \<le> length xs \<Longrightarrow> length (draw rnd k xs n) = n"
proof (induction rnd k xs n rule: draw.induct)
  case (3 rnd k x xs n)
  define i where "i = rnd k mod length (x # xs)"
  have i: "i < length (x # xs)" by (simp add: i_def)
  then have "length (take i (x # xs) @ drop (Suc i) (x # xs)) = length xs" by auto
  with "3.prems" have "length (draw rnd (Suc k) (take i (x # xs) @ drop (Suc i) (x # xs)) n) = n"
    using "3.IH" [of i] by (simp add: i_def)
  then show ?case by (simp add: Let_def i_def)
qed simp_all

lemma set_draw: "set (draw rnd k xs n) \<subseteq> set xs"
  using set_mset_mono [OF mset_draw [of rnd k xs n]] by simp

lemma distinct_sub_mset:
  assumes "mset ys \<subseteq># mset xs" and "distinct xs"
  shows "distinct ys"
proof -
  obtain C where C: "mset xs = mset ys + C"
    using assms(1) by (auto simp: mset_subset_eq_exists_conv)
  obtain zs where "C = mset zs" using ex_mset [of C] by auto
  with C have "mset xs = mset (ys @ zs)" by simp
  then have "distinct (ys @ zs)" using assms(2) mset_eq_imp_distinct_iff by blast
  then show ?thesis by simp
qed

lemma distinct_draw: "distinct xs \<Longrightarrow> distinct (draw rnd k xs n)"
  by (rule distinct_sub_mset [OF mset_draw])

subsection \<open>Ranking\<close>

lemma insort_key_map:
  "insort_key f (g x) (map g xs) = map g (insort_key (\<lambda>y. f (g y)) x xs)"
  by (induction xs) auto

lemma sort_key_map: "sort_key f (map g xs) = map g (sort_key (\<lambda>y. f (g y)) xs)"
  by (induction xs) (auto simp: insort_key_map)


section \<open>The simulation functions\<close>

subsection \<open>Feature computation\<close>

lemma compute_features_supplied:
  assumes "gnodes g \<noteq> []" and "cd \<noteq> []"
    and "\<forall>p\<in>set df. fst p \<in> set (gnodes g) \<and> snd p \<in> set (gnodes g)"
    and "\<forall>p\<in>set df. map_of cd (fst p) \<noteq> None \<and> map_of cd (snd p) \<noteq> None"
    and "df \<noteq> []"
  shows "compute_features lib df link (Some g) (Some cd) = Inr (map (pair_features lib g cd) df)"
  using assms by (auto simp: compute_features_def ebind_def Let_def)

lemma compute_features_built:
  assumes "cd \<noteq> []"
    and "\<forall>p\<in>set df. fst p \<in> set (gnodes (from_pandas_edgelist (map fst (filter snd (zip df ls)))))
                    \<and> snd p \<in> set (gnodes (from_pandas_edgelist (map fst (filter snd (zip df ls)))))"
    and "\<forall>p\<in>set df. map_of cd (fst p) \<noteq> None \<and> map_of cd (snd p) \<noteq> None"
    and "df \<noteq> []"
  shows "compute_features lib df (Some ls) None (Some cd) =
           Inr (map (pair_features lib (from_pandas_edgelist (map fst (filter snd (zip df ls)))) cd) df)"
  using assms by (auto simp: compute_features_def ebind_def Let_def)

lemma compute_features_Inr:
  assumes "compute_features lib df link ga cda = Inr fs"
  shows "df \<noteq> [] \<and> length fs = length df"
  using assms
  by (auto simp: compute_features_def ebind_def Let_def split: option.splits sum.splits if_splits)

lemma combined_comm_pair_features:
  "combined_comm (pair_features lib g cd p) = combined_comm (pair_features lib g' cd p)"
  by (simp add: pair_features_def)

lemma wf_sim_universe_ok: "wf_sim s \<Longrightarrow> universe_ok s"
  by (simp add: wf_sim_def)

lemma universe_ok_comm_dict_nonempty: "universe_ok s \<Longrightarrow> comm_dict s \<noteq> []"
  by (cases "node_list s") (auto simp: universe_ok_def)

lemma wf_sim_comm_dict_nonempty: "wf_sim s \<Longrightarrow> comm_dict s \<noteq> []"
  by (simp add: wf_sim_universe_ok universe_ok_comm_dict_nonempty)

lemma nodes_of_cong: "set df = set df' \<Longrightarrow> nodes_of df = nodes_of df'"
  by (simp add: nodes_of_def)

lemma wf_sim_pairs_nonempty:
  assumes "wf_sim s" and "edge_df s \<noteq> []"
  shows "pair_table (node_list s) \<noteq> []"
proof -
  obtain e where "e \<in> set (edge_df s)" using assms(2) by (cases "edge_df s") auto
  then have "e \<in> set (pair_table (node_list s))"
    using assms(1) by (auto simp: wf_sim_def simple_table_def list_all_iff set_pair_table)
  then show ?thesis by auto
qed

lemma wf_sim_edges_in_pairs:
  assumes "wf_sim s"
  shows "set (edge_df s) \<subseteq> set (pair_table (node_list s))"
  using assms by (auto simp: wf_sim_def universe_ok_def simple_table_def list_all_iff set_pair_table)

subsection \<open>Data preparation and training\<close>

lemma prep_data_wf:
  fixes lib :: library and s :: simulator
  assumes "wf_sim s" and "edge_df s \<noteq> []"
  defines "ns \<equiv> np_unique (map fst (edge_df s) @ map snd (edge_df s))"
  defines "fs \<equiv> map (pair_features lib (from_pandas_edgelist (filter (\<lambda>p. p \<in> set (edge_df s)) (pair_table ns)))
                         (comm_dict s)) (pair_table ns)"
  shows "prep_data lib s =
           Inr (s\<lparr>train_df := Some (zip (add_negative_examples (edge_df s)) fs),
                  feature_cols := Some (feature_names fs)\<rparr>)"
proof -
  define df where "df = edge_df s"
  define t where "t = add_negative_examples df"
  have dist: "distinct df" using assms(1) by (simp add: wf_sim_def universe_ok_def simple_table_def df_def)
  have t: "t = map (\<lambda>p. (p, p \<in> set df)) (pair_table ns)"
    unfolding t_def ns_def df_def [symmetric] by (rule add_negative_examples_distinct [OF dist])
  have keys: "map fst t = pair_table ns" by (simp add: t o_def)
  have pos: "map fst (filter snd (zip (map fst t) (map snd t))) = filter (\<lambda>p. p \<in> set df) (pair_table ns)"
    unfolding zip_map_fst_snd by (simp add: t filter_map o_def)
  have set_ns: "set ns = nodes_of df" by (simp add: ns_def set_np_unique nodes_of_def df_def)
  have sub: "set df \<subseteq> set (pair_table ns)"
    using assms(1) by (auto simp: wf_sim_def universe_ok_def simple_table_def list_all_iff set_pair_table set_ns nodes_of_def df_def)
  have ne: "map fst t \<noteq> []"
    using sub assms(2) by (cases df) (auto simp: t df_def)
  from sub have "set (filter (\<lambda>p. p \<in> set df) (pair_table ns)) = set df" by auto
  then have "nodes_of (filter (\<lambda>p. p \<in> set df) (pair_table ns)) = nodes_of df"
    by (rule nodes_of_cong)
  then have gn: "set (gnodes (from_pandas_edgelist (filter (\<lambda>p. p \<in> set df) (pair_table ns)))) = nodes_of df"
    by (simp add: set_gnodes_from_pandas_edgelist)
  have in_g: "\<forall>p\<in>set (map fst t). fst p \<in> set (gnodes (from_pandas_edgelist (map fst (filter snd (zip (map fst t) (map snd t))))))
                    \<and> snd p \<in> set (gnodes (from_pandas_edgelist (map fst (filter snd (zip (map fst t) (map snd t))))))"
    unfolding pos unfolding gn keys by (simp add: set_pair_table set_ns)
  have "nodes_of df \<subseteq> set (node_list s)"
    using assms(1) by (auto simp: wf_sim_def universe_ok_def list_all_iff nodes_of_def df_def)
  then have in_cd: "\<forall>p\<in>set (map fst t). map_of (comm_dict s) (fst p) \<noteq> None \<and> map_of (comm_dict s) (snd p) \<noteq> None"
    unfolding keys using assms(1) by (auto simp: wf_sim_def universe_ok_def list_all_iff set_pair_table set_ns)
  have "compute_features lib (map fst t) (Some (map snd t)) None (Some (comm_dict s)) = Inr fs"
    using compute_features_built [OF wf_sim_comm_dict_nonempty [OF assms(1)] in_g in_cd ne]
    unfolding pos unfolding keys fs_def df_def by simp
  then show ?thesis
    by (simp add: prep_data_def Let_def ebind_def t_def df_def)
qed

lemma prep_data_Inr_nonempty:
  assumes "prep_data lib s = Inr s1"
  shows "edge_df s \<noteq> []"
proof
  assume e: "edge_df s = []"
  have t: "add_negative_examples [] = []"
    by (simp add: add_negative_examples_def np_unique_def pair_table_def)
  from assms obtain fs where "compute_features lib [] (Some []) None (Some (comm_dict s)) = Inr fs"
    by (auto simp: prep_data_def Let_def ebind_def e t split: sum.splits)
  from compute_features_Inr [OF this] show False by simp
qed

lemma prep_data_succeeds:
  assumes "wf_sim s" and "edge_df s \<noteq> []"
  shows "\<exists>tr fs. prep_data lib s = Inr (s\<lparr>train_df := Some tr, feature_cols := Some (feature_names fs)\<rparr>)
           \<and> map snd tr = fs
           \<and> combined_comm ` set fs \<subseteq>
               combined_comm ` set (map (pair_features lib (G s) (comm_dict s)) (pair_table (node_list s)))"
proof -
  define ns where "ns = np_unique (map fst (edge_df s) @ map snd (edge_df s))"
  define g where "g = from_pandas_edgelist (filter (\<lambda>p. p \<in> set (edge_df s)) (pair_table ns))"
  define fs where "fs = map (pair_features lib g (comm_dict s)) (pair_table ns)"
  define tr where "tr = zip (add_negative_examples (edge_df s)) fs"
  have dist: "distinct (edge_df s)"
    using assms(1) by (simp add: wf_sim_def universe_ok_def simple_table_def)
  have p: "prep_data lib s = Inr (s\<lparr>train_df := Some tr, feature_cols := Some (feature_names fs)\<rparr>)"
    unfolding tr_def fs_def g_def ns_def by (rule prep_data_wf [OF assms])
  have "length (add_negative_examples (edge_df s)) = length fs"
    by (simp add: add_negative_examples_distinct [OF dist] fs_def ns_def)
  then have m: "map snd tr = fs" by (simp add: tr_def)
  have "set ns \<subseteq> set (node_list s)"
    using assms(1) by (auto simp: ns_def set_np_unique wf_sim_def universe_ok_def list_all_iff)
  then have sub: "set (pair_table ns) \<subseteq> set (pair_table (node_list s))"
    by (auto simp: set_pair_table)
  have "combined_comm ` set fs = (\<lambda>p. combined_comm (pair_features lib g (comm_dict s) p)) ` set (pair_table ns)"
    by (simp add: fs_def image_image)
  also have "\<dots> = (\<lambda>p. combined_comm (pair_features lib (G s) (comm_dict s) p)) ` set (pair_table ns)"
    by (simp add: combined_comm_pair_features [of lib g "comm_dict s" _ "G s"])
  also have "\<dots> \<subseteq> (\<lambda>p. combined_comm (pair_features lib (G s) (comm_dict s) p)) ` set (pair_table (node_list s))"
    using sub by (rule image_mono)
  also have "\<dots> = combined_comm ` set (map (pair_features lib (G s) (comm_dict s)) (pair_table (node_list s)))"
    by (simp add: image_image)
  finally have "combined_comm ` set fs \<subseteq>
               combined_comm ` set (map (pair_features lib (G s) (comm_dict s)) (pair_table (node_list s)))" .
  with p m show ?thesis by blast
qed

lemma wf_sim_attrs [simp]:
  "wf_sim (s\<lparr>train_df := a\<rparr>) = wf_sim s"
  "wf_sim (s\<lparr>feature_cols := b\<rparr>) = wf_sim s"
  "wf_sim (s\<lparr>model := c\<rparr>) = wf_sim s"
  by (simp_all add: wf_sim_def universe_ok_def)

lemma ready_edge_df [simp]: "ready lib (s\<lparr>edge_df := k\<rparr>) = ready lib s"
  by (simp add: ready_def split: option.splits)

lemma edge_score_edge_df [simp]: "edge_score lib (s\<lparr>edge_df := k\<rparr>) = edge_score lib s"
  by (simp add: edge_score_def fun_eq_iff)

lemma select_columns_own:
  "select_columns (feature_names fs) fs = Inr (map (\<lambda>r. map (column_value r) (feature_names fs)) fs)"
  by (simp add: select_columns_def)

lemma feature_names_mono:
  assumes "combined_comm ` set fs \<subseteq> combined_comm ` set fs'"
  shows "set (feature_names fs) \<subseteq> set (feature_names fs')"
  using assms by (auto simp: feature_names_def dummy_columns_def)

lemma trained_ready:
  assumes "wf_sim s" and "prep_data lib s = Inr s1" and "train_model lib s1 = Inr s2"
  shows "\<exists>tr cols m. s2 = s\<lparr>train_df := Some tr, feature_cols := Some cols, model := Some m\<rparr>
            \<and> lr_fit lib (zip (map (\<lambda>r. map (column_value r) cols) (map snd tr))
                               (map (\<lambda>r. snd (fst r)) tr)) = Inr m
            \<and> ready lib s2"
proof -
  obtain tr fs where p: "prep_data lib s = Inr (s\<lparr>train_df := Some tr, feature_cols := Some (feature_names fs)\<rparr>)"
    and m: "map snd tr = fs"
    and sub: "combined_comm ` set fs \<subseteq>
               combined_comm ` set (map (pair_features lib (G s) (comm_dict s)) (pair_table (node_list s)))"
    using prep_data_succeeds [OF assms(1) prep_data_Inr_nonempty [OF assms(2)], of lib] by blast
  from p assms(2) have s1: "s1 = s\<lparr>train_df := Some tr, feature_cols := Some (feature_names fs)\<rparr>"
    by simp
  have "train_model lib s1 =
          ebind (lr_fit lib (zip (map (\<lambda>r. map (column_value r) (feature_names fs)) fs) (map (\<lambda>r. snd (fst r)) tr)))
                (\<lambda>m. Inr (s1\<lparr>model := Some m\<rparr>))"
    by (simp add: train_model_def s1 m select_columns_own ebind_def)
  with assms(3) obtain mdl where
    fit: "lr_fit lib (zip (map (\<lambda>r. map (column_value r) (feature_names fs)) fs) (map (\<lambda>r. snd (fst r)) tr)) = Inr mdl"
    and s2: "s2 = s1\<lparr>model := Some mdl\<rparr>"
    by (auto simp: ebind_def split: sum.splits)
  have eq: "s2 = s\<lparr>train_df := Some tr, feature_cols := Some (feature_names fs), model := Some mdl\<rparr>"
    by (simp add: s2 s1)
  have "ready lib s2"
    using feature_names_mono [OF sub] by (auto simp: ready_def eq list_all_iff)
  with eq fit m show ?thesis by blast
qed

subsection \<open>Predicted edges\<close>

lemma head_map: "head n (map f xs) = map f (head n xs)"
  by (simp add: head_def take_map)

lemma get_predicted_edges_ready:
  assumes "universe_ok s" and "ready lib s" and "pair_table (node_list s) \<noteq> []"
  shows "get_predicted_edges lib s r =
           Inr (head r (sort_key (\<lambda>p. - edge_score lib s p) (candidates s)))"
proof -
  define pairs where "pairs = pair_table (node_list s)"
  define fs where "fs = map (pair_features lib (G s) (comm_dict s)) pairs"
  obtain m cols where m: "model s = Some m" and cols: "feature_cols s = Some cols"
    and sub: "set cols \<subseteq> set (feature_names fs)"
    using assms(2) by (auto simp: ready_def fs_def pairs_def list_all_iff split: option.splits)
  have g: "gnodes (G s) \<noteq> []"
    using assms(1) by (cases "node_list s") (auto simp: universe_ok_def)
  have in_g: "\<forall>p\<in>set pairs. fst p \<in> set (gnodes (G s)) \<and> snd p \<in> set (gnodes (G s))"
    using assms(1) by (auto simp: universe_ok_def list_all_iff pairs_def set_pair_table)
  have in_cd: "\<forall>p\<in>set pairs. map_of (comm_dict s) (fst p) \<noteq> None \<and> map_of (comm_dict s) (snd p) \<noteq> None"
    using assms(1) by (auto simp: universe_ok_def list_all_iff pairs_def set_pair_table)
  have cf: "compute_features lib pairs None (Some (G s)) (Some (comm_dict s)) = Inr fs"
    unfolding fs_def
    using assms(3)
    by (intro compute_features_supplied [OF g universe_ok_comm_dict_nonempty [OF assms(1)] in_g in_cd])
       (simp add: pairs_def)
  have sel: "select_columns cols fs = Inr (map (\<lambda>r. map (column_value r) cols) fs)"
    using sub by (auto simp: select_columns_def)
  have scored: "zip pairs (map (m \<circ> (\<lambda>r. map (column_value r) cols)) fs) = map (\<lambda>p. (p, edge_score lib s p)) pairs"
    by (simp add: fs_def edge_score_def m cols zip_map2 zip_same_conv_map o_def)
  have "get_predicted_edges lib s r =
          Inr (map fst (head r (sort_key (\<lambda>r. - snd r)
                 (filter (\<lambda>r. fst r \<notin> set (edge_df s)) (map (\<lambda>p. (p, edge_score lib s p)) pairs)))))"
    using cf sel by (simp add: get_predicted_edges_def pairs_def [symmetric] ebind_def m cols scored Let_def)
  also have "filter (\<lambda>r. fst r \<notin> set (edge_df s)) (map (\<lambda>p. (p, edge_score lib s p)) pairs)
              = map (\<lambda>p. (p, edge_score lib s p)) (candidates s)"
    by (simp add: filter_map o_def candidates_def pairs_def)
  also have "map fst (head r (sort_key (\<lambda>r. - snd r) (map (\<lambda>p. (p, edge_score lib s p)) (candidates s))))
              = head r (sort_key (\<lambda>p. - edge_score lib s p) (candidates s))"
    by (simp add: sort_key_map head_map o_def)
  finally show ?thesis .
qed

subsection \<open>Candidates\<close>

lemma set_candidates: "set (candidates s) = set (pair_table (node_list s)) - set (edge_df s)"
  by (auto simp: candidates_def)

lemma distinct_candidates: "distinct (node_list s) \<Longrightarrow> distinct (candidates s)"
  by (simp add: candidates_def distinct_pair_table)

lemma length_filter_mem_le:
  assumes "distinct xs"
  shows "length (filter (\<lambda>p. p \<in> set ys) xs) \<le> length ys"
proof -
  have "length (filter (\<lambda>p. p \<in> set ys) xs) = card ({p. p \<in> set ys} \<inter> set xs)"
    by (rule distinct_length_filter [OF assms])
  also have "\<dots> \<le> card (set ys)" by (intro card_mono) auto
  also have "\<dots> \<le> length ys" by (rule card_length)
  finally show ?thesis .
qed

lemma wf_sim_kept:
  assumes "wf_sim s" and "mset kept \<subseteq># mset (edge_df s)"
  shows "wf_sim (s\<lparr>edge_df := kept\<rparr>)"
proof -
  have sub: "set kept \<subseteq> set (edge_df s)" using set_mset_mono [OF assms(2)] by simp
  have "distinct kept" using assms by (auto simp: wf_sim_def universe_ok_def simple_table_def intro: distinct_sub_mset)
  with sub assms(1) show ?thesis
    by (auto simp: wf_sim_def universe_ok_def simple_table_def list_all_iff)
qed

lemma candidates_enough:
  assumes "wf_sim s" and "mset kept \<subseteq># mset (edge_df s)"
  shows "length (edge_df s) \<le> length (candidates (s\<lparr>edge_df := kept\<rparr>)) + length kept"
proof -
  define pairs where "pairs = pair_table (node_list s)"
  have dp: "distinct pairs" using assms(1) by (simp add: pairs_def wf_sim_def universe_ok_def distinct_pair_table)
  have de: "distinct (edge_df s)" using assms(1) by (simp add: wf_sim_def universe_ok_def simple_table_def)
  have "card (set (edge_df s)) \<le> card (set pairs)"
    using wf_sim_edges_in_pairs [OF assms(1)] by (intro card_mono) (auto simp: pairs_def)
  then have m: "length (edge_df s) \<le> length pairs"
    using dp de by (simp add: distinct_card)
  have "length (filter (\<lambda>p. p \<in> set kept) pairs) + length (filter (\<lambda>p. p \<notin> set kept) pairs) = length pairs"
    by (rule sum_length_filter_compl)
  moreover have "length (filter (\<lambda>p. p \<in> set kept) pairs) \<le> length kept"
    by (rule length_filter_mem_le [OF dp])
  ultimately have "length pairs \<le> length (filter (\<lambda>p. p \<notin> set kept) pairs) + length kept"
    by linarith
  with m show ?thesis by (simp add: candidates_def pairs_def)
qed

lemma wf_sim_edges_le_pairs:
  assumes "wf_sim s"
  shows "length (edge_df s) \<le> length (pair_table (node_list s))"
proof -
  have dp: "distinct (pair_table (node_list s))"
    using assms by (simp add: wf_sim_def distinct_pair_table)
  have de: "distinct (edge_df s)" using assms by (simp add: wf_sim_def simple_table_def)
  have "card (set (edge_df s)) \<le> card (set (pair_table (node_list s)))"
    using wf_sim_edges_in_pairs [OF assms] by (intro card_mono) auto
  then show ?thesis using dp de by (simp add: distinct_card)
qed

lemma candidates_count:
  assumes "wf_sim s" and "mset kept \<subseteq># mset (edge_df s)"
  shows "length (candidates (s\<lparr>edge_df := kept\<rparr>)) + length kept = length (pair_table (node_list s))"
proof -
  define pairs where "pairs = pair_table (node_list s)"
  have dp: "distinct pairs" using assms(1) by (simp add: pairs_def wf_sim_def distinct_pair_table)
  have dk: "distinct kept"
    using assms by (auto simp: wf_sim_def simple_table_def intro: distinct_sub_mset)
  have "set kept \<subseteq> set (edge_df s)" using set_mset_mono [OF assms(2)] by simp
  then have sub: "set kept \<subseteq> set pairs"
    using wf_sim_edges_in_pairs [OF assms(1)] by (auto simp: pairs_def)
  have "length (filter (\<lambda>p. p \<in> set kept) pairs) = card ({p. p \<in> set kept} \<inter> set pairs)"
    by (rule distinct_length_filter [OF dp])
  also have "{p. p \<in> set kept} \<inter> set pairs = set kept" using sub by auto
  also have "card (set kept) = length kept" using dk by (rule distinct_card)
  finally have k: "length (filter (\<lambda>p. p \<in> set kept) pairs) = length kept" .
  have "length (filter (\<lambda>p. p \<in> set kept) pairs) + length (filter (\<lambda>p. p \<notin> set kept) pairs) = length pairs"
    by (rule sum_length_filter_compl)
  with k show ?thesis by (simp add: candidates_def pairs_def)
qed

lemma map_fst_filter_zip:
  assumes "length xs = length ys"
  shows "map fst (filter (\<lambda>r. P (fst r)) (zip xs ys)) = filter P xs"
  using assms by (induction xs ys rule: list_induct2) auto

lemma get_predicted_edges_Inr:
  assumes "get_predicted_edges lib s r = Inr new" and "0 \<le> r"
  shows "length new = min (nat r) (length (candidates s)) \<and> set new \<subseteq> set (candidates s)"
proof -
  define pairs where "pairs = pair_table (node_list s)"
  have "\<exists>fs (m :: real list \<Rightarrow> real) cols X.
          compute_features lib pairs None (Some (G s)) (Some (comm_dict s)) = Inr fs
          \<and> select_columns cols fs = Inr X
          \<and> new = map fst (head r (sort_key (\<lambda>r. - snd r)
                      (filter (\<lambda>r. fst r \<notin> set (edge_df s)) (zip pairs (map m X)))))"
  proof (cases "compute_features lib pairs None (Some (G s)) (Some (comm_dict s))")
    case (Inl e)
    with assms(1) show ?thesis
      by (simp add: get_predicted_edges_def Let_def ebind_def pairs_def)
  next
    case (Inr fs)
    show ?thesis
    proof (cases "model s")
      case None
      with assms(1) Inr show ?thesis
        by (simp add: get_predicted_edges_def Let_def ebind_def pairs_def)
    next
      case (Some m)
      note m = this
      show ?thesis
      proof (cases "feature_cols s")
        case None
        with assms(1) Inr m show ?thesis
          by (simp add: get_predicted_edges_def Let_def ebind_def pairs_def)
      next
        case (Some cols)
        note cols = this
        show ?thesis
        proof (cases "select_columns cols fs")
          case (Inl e)
          with assms(1) Inr m cols show ?thesis
            by (simp add: get_predicted_edges_def Let_def ebind_def pairs_def)
        next
          case (Inr X)
          with assms(1) \<open>compute_features lib pairs None (Some (G s)) (Some (comm_dict s)) = Inr fs\<close>
            m cols
          have "new = map fst (head r (sort_key (\<lambda>r. - snd r)
                      (filter (\<lambda>r. fst r \<notin> set (edge_df s)) (zip pairs (map m X)))))"
            by (simp add: get_predicted_edges_def Let_def ebind_def pairs_def)
          with Inr \<open>compute_features lib pairs None (Some (G s)) (Some (comm_dict s)) = Inr fs\<close>
          have "compute_features lib pairs None (Some (G s)) (Some (comm_dict s)) = Inr fs
              \<and> select_columns cols fs = Inr X
              \<and> new = map fst (head r (sort_key (\<lambda>r. - snd r)
                      (filter (\<lambda>r. fst r \<notin> set (edge_df s)) (zip pairs (map m X)))))"
            by simp
          then show ?thesis by - (rule exI)+
        qed
      qed
    qed
  qed
  then obtain fs and m :: "real list \<Rightarrow> real" and cols X where
    cf: "compute_features lib pairs None (Some (G s)) (Some (comm_dict s)) = Inr fs"
    and sel: "select_columns cols fs = Inr X"
    and new: "new = map fst (head r (sort_key (\<lambda>r. - snd r)
                      (filter (\<lambda>r. fst r \<notin> set (edge_df s)) (zip pairs (map m X)))))"
    by blast
  define lo where "lo = filter (\<lambda>r. fst r \<notin> set (edge_df s)) (zip pairs (map m X))"
  have "length X = length fs" using sel by (auto simp: select_columns_def split: if_splits)
  then have "length pairs = length (map m X)" using compute_features_Inr [OF cf] by simp
  then have "map fst lo = candidates s"
    unfolding lo_def candidates_def pairs_def [symmetric] by (rule map_fst_filter_zip)
  then have len: "length lo = length (candidates s)" and st: "fst ` set lo = set (candidates s)"
    by (metis length_map, metis set_map)
  have n: "new = map fst (take (nat r) (sort_key (\<lambda>r. - snd r) lo))"
    using assms(2) by (simp add: new lo_def head_def)
  have "length new = min (nat r) (length (candidates s))"
    by (simp add: n len min.commute)
  moreover have "set new \<subseteq> fst ` set (sort_key (\<lambda>r. - snd r) lo)"
    unfolding n using set_take_subset [of "nat r" "sort_key (\<lambda>r. - snd r) lo"] by auto
  ultimately show ?thesis using st by simp
qed

subsection \<open>The rewiring step\<close>

lemma sample_ok:
  assumes "0 \<le> r" and "r \<le> int (length xs)"
  shows "\<exists>kept. sample rnd xs (int (length xs) - r) = Inr kept
           \<and> mset kept \<subseteq># mset xs \<and> length kept = length xs - nat r"
proof -
  have "sample rnd xs (int (length xs) - r) = Inr (draw rnd 0 xs (nat (int (length xs) - r)))"
    using assms by (simp add: sample_def)
  moreover have "nat (int (length xs) - r) = length xs - nat r" using assms by linarith
  moreover have "length (draw rnd 0 xs (length xs - nat r)) = length xs - nat r"
    by (rule length_draw) simp
  ultimately show ?thesis using mset_draw [of rnd 0 xs "length xs - nat r"] by auto
qed

lemma update_edges_wf:
  assumes "wf_sim s" and "ready lib s" and "0 \<le> r" and "r \<le> int (length (edge_df s))"
    and "edge_df s \<noteq> []"
  shows "\<exists>kept new. sample rnd (edge_df s) (int (length (edge_df s)) - r) = Inr kept
           \<and> new = take (nat r) (sort_key (\<lambda>p. - edge_score lib s p) (candidates (s\<lparr>edge_df := kept\<rparr>)))
           \<and> update_edges lib rnd s r = Inr (s\<lparr>edge_df := kept @ new\<rparr>)
           \<and> mset kept \<subseteq># mset (edge_df s)
           \<and> length kept = length (edge_df s) - nat r
           \<and> length new = nat r"
proof -
  obtain kept where k: "sample rnd (edge_df s) (int (length (edge_df s)) - r) = Inr kept"
    and sub: "mset kept \<subseteq># mset (edge_df s)" and len: "length kept = length (edge_df s) - nat r"
    using sample_ok [OF assms(3,4)] by blast
  define new where "new = take (nat r) (sort_key (\<lambda>p. - edge_score lib s p) (candidates (s\<lparr>edge_df := kept\<rparr>)))"
  have wf1: "wf_sim (s\<lparr>edge_df := kept\<rparr>)" by (rule wf_sim_kept [OF assms(1) sub])
  have "get_predicted_edges lib (s\<lparr>edge_df := kept\<rparr>) r = Inr new"
    using get_predicted_edges_ready [OF wf_sim_universe_ok [OF wf1], of lib r] assms(2,3)
      wf_sim_pairs_nonempty [OF assms(1,5)]
    by (simp add: new_def head_def)
  then have u: "update_edges lib rnd s r = Inr (s\<lparr>edge_df := kept @ new\<rparr>)"
    using k by (simp add: update_edges_def ebind_def Let_def)
  have "nat r \<le> length (edge_df s)" using assms(3,4) by linarith
  with candidates_enough [OF assms(1) sub] len
  have "nat r \<le> length (candidates (s\<lparr>edge_df := kept\<rparr>))" by linarith
  then have "length new = nat r" by (simp add: new_def)
  with k u sub len new_def show ?thesis by blast
qed

lemma wf_sim_rewired:
  assumes "wf_sim s" and "mset kept \<subseteq># mset (edge_df s)"
    and "set new \<subseteq> set (candidates (s\<lparr>edge_df := kept\<rparr>))" and "distinct new"
  shows "wf_sim (s\<lparr>edge_df := kept @ new,
                  G := add_nodes_from (node_list s) (from_pandas_edgelist (kept @ new))\<rparr>)"
proof -
  have wf1: "wf_sim (s\<lparr>edge_df := kept\<rparr>)" by (rule wf_sim_kept [OF assms(1,2)])
  have new: "set new \<subseteq> set (pair_table (node_list s)) - set kept"
    using assms(3) by (simp add: set_candidates)
  have "simple_table (kept @ new)"
    using wf1 new assms(4) by (auto simp: wf_sim_def universe_ok_def simple_table_def list_all_iff set_pair_table)
  moreover have "list_all (\<lambda>e. fst e \<in> set (node_list s) \<and> snd e \<in> set (node_list s)) (kept @ new)"
    using wf1 new by (auto simp: wf_sim_def universe_ok_def list_all_iff set_pair_table)
  ultimately show ?thesis
    using assms(1) by (simp add: wf_sim_def universe_ok_def set_gnodes_add_nodes_from list_all_iff)
qed

lemma step_wf:
  assumes "wf_sim s" and "prep_data lib s = Inr s1" and "train_model lib s1 = Inr s2"
    and "0 \<le> r" and "r \<le> int (length (edge_df s))"
  shows "\<exists>kept new. sample rnd (edge_df s) (int (length (edge_df s)) - r) = Inr kept
           \<and> new = take (nat r) (sort_key (\<lambda>p. - edge_score lib s2 p) (candidates (s\<lparr>edge_df := kept\<rparr>)))
           \<and> update_edges lib rnd s2 r = Inr (s2\<lparr>edge_df := kept @ new\<rparr>)
           \<and> step lib rnd s r train =
                Inr (s2\<lparr>edge_df := kept @ new,
                        G := add_nodes_from (node_list s) (from_pandas_edgelist (kept @ new))\<rparr>)
           \<and> mset kept \<subseteq># mset (edge_df s)
           \<and> length kept = length (edge_df s) - nat r
           \<and> length new = nat r"
proof -
  obtain tr cols m where s2: "s2 = s\<lparr>train_df := Some tr, feature_cols := Some cols, model := Some m\<rparr>"
    and rdy: "ready lib s2"
    using trained_ready [OF assms(1,2,3)] by blast
  have wf2: "wf_sim s2" using assms(1) by (simp add: s2)
  have e2: "edge_df s2 = edge_df s" and n2: "node_list s2 = node_list s" by (simp_all add: s2)
  have c2: "\<And>k. candidates (s2\<lparr>edge_df := k\<rparr>) = candidates (s\<lparr>edge_df := k\<rparr>)"
    by (simp add: candidates_def s2)
  obtain kept new where k: "sample rnd (edge_df s) (int (length (edge_df s)) - r) = Inr kept"
    and new: "new = take (nat r) (sort_key (\<lambda>p. - edge_score lib s2 p) (candidates (s\<lparr>edge_df := kept\<rparr>)))"
    and u: "update_edges lib rnd s2 r = Inr (s2\<lparr>edge_df := kept @ new\<rparr>)"
    and sub: "mset kept \<subseteq># mset (edge_df s)"
    and lk: "length kept = length (edge_df s) - nat r" and ln: "length new = nat r"
    using update_edges_wf [OF wf2 rdy, of r rnd] assms(4,5) prep_data_Inr_nonempty [OF assms(2)]
    unfolding e2 c2 by blast
  have "step lib rnd s r train =
          Inr (s2\<lparr>edge_df := kept @ new,
                  G := add_nodes_from (node_list s) (from_pandas_edgelist (kept @ new))\<rparr>)"
    using assms(2,3) u by (simp add: step_def ebind_def n2)
  with k new u sub lk ln show ?thesis by blast
qed

subsection \<open>Construction\<close>

lemma map_of_zip_longer:
  assumes "length xs \<le> length ys" and "x \<in> set xs"
  shows "map_of (zip xs ys) x \<noteq> None"
  using assms
proof (induction xs arbitrary: ys)
  case Nil
  then show ?case by simp
next
  case (Cons a xs)
  then show ?case by (cases ys) auto
qed

lemma init_result:
  assumes "init lib df = Inr s"
  shows "edge_df s = df \<and> G s = from_pandas_edgelist df \<and> node_list s = gnodes (from_pandas_edgelist df)
       \<and> louvain_communities lib (from_pandas_edgelist df) = Inr (comm_dict s, comms s)
       \<and> train_df s = None \<and> feature_cols s = None \<and> model s = None"
  using assms by (auto simp: init_def Let_def ebind_def split: sum.splits)

lemma louvain_communities_covers:
  assumes "louvain_communities lib g = Inr (cd, cs)" and "x \<in> set (gnodes g)"
  shows "map_of cd x \<noteq> None"
proof -
  define labels where
    "labels = concat (map (\<lambda>i. filter (\<lambda>l. i \<in> cs ! l) [0..<length cs]) (gnodes g))"
  have "cd = zip (gnodes g) labels \<and> length (gnodes g) \<le> length labels"
    using assms(1)
    by (auto simp: louvain_communities_def ebind_def Let_def labels_def split: sum.splits if_splits)
  then show ?thesis using assms(2) by (simp add: map_of_zip_longer)
qed

lemma nodes_of_nonempty: "df \<noteq> [] \<Longrightarrow> nodes_of df \<noteq> {}"
  by (cases df) (auto simp: nodes_of_def)

lemma init_wf:
  assumes "init lib df = Inr s" and "simple_table df" and "df \<noteq> []"
  shows "wf_sim s"
proof -
  note r = init_result [OF assms(1)]
  have nl: "set (node_list s) = nodes_of df" using r by (simp add: set_gnodes_from_pandas_edgelist)
  have "node_list s \<noteq> []" using nl nodes_of_nonempty [OF assms(3)] by auto
  moreover have "distinct (node_list s)" using r by (simp add: distinct_gnodes_from_pandas_edgelist)
  moreover have "\<forall>e\<in>set df. fst e \<in> nodes_of df \<and> snd e \<in> nodes_of df"
    by (auto simp: nodes_of_def)
  then have "list_all (\<lambda>e. fst e \<in> set (node_list s) \<and> snd e \<in> set (node_list s)) (edge_df s)"
    unfolding nl using r by (simp add: list_all_iff)
  moreover have "list_all (\<lambda>x. map_of (comm_dict s) x \<noteq> None) (node_list s)"
    using r louvain_communities_covers [of lib "from_pandas_edgelist df" "comm_dict s" "comms s"]
    by (auto simp: list_all_iff)
  moreover have "list_all (\<lambda>x. x \<in> set (gnodes (G s))) (node_list s)"
    using r by (simp add: list_all_iff)
  ultimately show ?thesis using assms(2) r by (simp add: wf_sim_def universe_ok_def)
qed

lemma init_empty:
  assumes "init lib [] = Inr s"
  shows "gnodes (G s) = [] \<and> edge_df s = []"
  using init_result [OF assms] by (simp add: from_pandas_edgelist_def empty_graph_def)

subsection \<open>What the operations leave unchanged\<close>

lemma prep_data_frame:
  assumes "prep_data lib s = Inr s'"
  shows "edge_df s' = edge_df s \<and> G s' = G s \<and> node_list s' = node_list s
       \<and> comm_dict s' = comm_dict s \<and> comms s' = comms s \<and> model s' = model s"
  using assms by (auto simp: prep_data_def Let_def ebind_def split: sum.splits)

lemma train_model_frame:
  assumes "train_model lib s = Inr s'"
  shows "edge_df s' = edge_df s \<and> G s' = G s \<and> node_list s' = node_list s
       \<and> comm_dict s' = comm_dict s \<and> comms s' = comms s
       \<and> train_df s' = train_df s \<and> feature_cols s' = feature_cols s"
  using assms by (auto simp: train_model_def ebind_def split: sum.splits option.splits)

lemma update_edges_frame:
  assumes "update_edges lib rnd s r = Inr s'"
  shows "G s' = G s \<and> node_list s' = node_list s \<and> comm_dict s' = comm_dict s \<and> comms s' = comms s
       \<and> train_df s' = train_df s \<and> feature_cols s' = feature_cols s \<and> model s' = model s"
  using assms by (auto simp: update_edges_def Let_def ebind_def split: sum.splits)

lemma step_Inr:
  assumes "step lib rnd s r train = Inr s'"
  shows "\<exists>s1 s2 s3. prep_data lib s = Inr s1 \<and> train_model lib s1 = Inr s2
           \<and> update_edges lib rnd s2 r = Inr s3
           \<and> s' = s3\<lparr>G := add_nodes_from (node_list s3) (from_pandas_edgelist (edge_df s3))\<rparr>"
  using assms by (auto simp: step_def ebind_def split: sum.splits)

lemma step_frame:
  assumes "step lib rnd s r train = Inr s'"
  shows "node_list s' = node_list s \<and> comm_dict s' = comm_dict s \<and> comms s' = comms s
       \<and> set (node_list s') \<subseteq> set (gnodes (G s'))"
proof -
  obtain s1 s2 s3 where p: "prep_data lib s = Inr s1" and t: "train_model lib s1 = Inr s2"
    and u: "update_edges lib rnd s2 r = Inr s3"
    and s': "s' = s3\<lparr>G := add_nodes_from (node_list s3) (from_pandas_edgelist (edge_df s3))\<rparr>"
    using step_Inr [OF assms] by blast
  show ?thesis
    using prep_data_frame [OF p] train_model_frame [OF t] update_edges_frame [OF u]
    by (simp add: s' set_gnodes_add_nodes_from)
qed

lemma update_edges_range:
  assumes "update_edges lib rnd s r = Inr s'"
  shows "0 \<le> r \<and> r \<le> int (length (edge_df s))"
  using assms by (auto simp: update_edges_def sample_def ebind_def split: sum.splits if_splits)

lemma get_predicted_edges_no_nodes:
  "gnodes (G s) = [] \<Longrightarrow> get_predicted_edges lib s r = Inl KeyError"
  by (simp add: get_predicted_edges_def compute_features_def ebind_def)

lemma step_no_nodes:
  assumes "gnodes (G s) = []"
  shows "step lib rnd s r train \<noteq> Inr s'"
proof
  assume "step lib rnd s r train = Inr s'"
  then obtain s1 s2 s3 where p: "prep_data lib s = Inr s1" and t: "train_model lib s1 = Inr s2"
    and u: "update_edges lib rnd s2 r = Inr s3"
    using step_Inr by blast
  have "G s2 = G s" using prep_data_frame [OF p] train_model_frame [OF t] by simp
  then have "\<And>k. get_predicted_edges lib (s2\<lparr>edge_df := k\<rparr>) r = Inl KeyError"
    using assms by (intro get_predicted_edges_no_nodes) simp
  with u show False
    by (auto simp: update_edges_def Let_def ebind_def split: sum.splits)
qed

lemma step_wf_Inr:
  assumes "wf_sim s" and "step lib rnd s r train = Inr s'"
  shows "wf_sim s' \<and> length (edge_df s') = length (edge_df s)"
proof -
  obtain s1 s2 s3 where p: "prep_data lib s = Inr s1" and t: "train_model lib s1 = Inr s2"
    and u: "update_edges lib rnd s2 r = Inr s3"
    using step_Inr [OF assms(2)] by blast
  have "edge_df s2 = edge_df s" using prep_data_frame [OF p] train_model_frame [OF t] by simp
  with update_edges_range [OF u] have r: "0 \<le> r" "r \<le> int (length (edge_df s))" by simp_all
  obtain tr cols m where s2: "s2 = s\<lparr>train_df := Some tr, feature_cols := Some cols, model := Some m\<rparr>"
    using trained_ready [OF assms(1) p t] by blast
  obtain kept new where new: "new = take (nat r) (sort_key (\<lambda>p. - edge_score lib s2 p) (candidates (s\<lparr>edge_df := kept\<rparr>)))"
    and st: "step lib rnd s r train =
                Inr (s2\<lparr>edge_df := kept @ new,
                        G := add_nodes_from (node_list s) (from_pandas_edgelist (kept @ new))\<rparr>)"
    and sub: "mset kept \<subseteq># mset (edge_df s)"
    and lk: "length kept = length (edge_df s) - nat r" and ln: "length new = nat r"
    using step_wf [OF assms(1) p t r, of rnd train] by blast
  have s': "s' = s2\<lparr>edge_df := kept @ new,
                        G := add_nodes_from (node_list s) (from_pandas_edgelist (kept @ new))\<rparr>"
    using st assms(2) by simp
  have "set new \<subseteq> set (candidates (s\<lparr>edge_df := kept\<rparr>))"
    unfolding new by (metis set_take_subset set_sort)
  moreover have "distinct new"
    unfolding new using assms(1) by (simp add: distinct_candidates wf_sim_def universe_ok_def)
  ultimately have "wf_sim (s\<lparr>edge_df := kept @ new,
                  G := add_nodes_from (node_list s) (from_pandas_edgelist (kept @ new))\<rparr>)"
    by (rule wf_sim_rewired [OF assms(1) sub])
  then have "wf_sim s'" by (simp add: s' s2 wf_sim_def universe_ok_def)
  moreover have "length (edge_df s') = length (edge_df s)"
    using lk ln r by (simp add: s')
  ultimately show ?thesis by simp
qed

subsection \<open>Runs\<close>

lemma steps_frame:
  assumes "steps lib s cs = Inr s'"
  shows "node_list s' = node_list s \<and> comm_dict s' = comm_dict s \<and> comms s' = comms s"
  using assms
proof (induction cs arbitrary: s)
  case Nil
  then show ?case by simp
next
  case (Cons c cs)
  then obtain s1 where 1: "step lib (fst c) s (fst (snd c)) (snd (snd c)) = Inr s1"
    and 2: "steps lib s1 cs = Inr s'"
    by (auto split: sum.splits)
  show ?case using step_frame [OF 1] Cons.IH [OF 2] by simp
qed

lemma steps_nodes:
  assumes "steps lib s cs = Inr s'" and "set (node_list s) \<subseteq> set (gnodes (G s))"
  shows "set (node_list s') \<subseteq> set (gnodes (G s'))"
  using assms
proof (induction cs arbitrary: s)
  case Nil
  then show ?case by simp
next
  case (Cons c cs)
  then obtain s1 where 1: "step lib (fst c) s (fst (snd c)) (snd (snd c)) = Inr s1"
    and 2: "steps lib s1 cs = Inr s'"
    by (auto split: sum.splits)
  have "set (node_list s1) \<subseteq> set (gnodes (G s1))" using step_frame [OF 1] by blast
  then show ?case by (rule Cons.IH [OF 2])
qed

lemma steps_wf:
  assumes "steps lib s cs = Inr s'" and "wf_sim s"
  shows "wf_sim s' \<and> length (edge_df s') = length (edge_df s)"
  using assms
proof (induction cs arbitrary: s)
  case Nil
  then show ?case by simp
next
  case (Cons c cs)
  then obtain s1 where 1: "step lib (fst c) s (fst (snd c)) (snd (snd c)) = Inr s1"
    and 2: "steps lib s1 cs = Inr s'"
    by (auto split: sum.splits)
  show ?case using step_wf_Inr [OF Cons.prems(2) 1] Cons.IH [OF 2] by simp
qed

lemma steps_no_nodes:
  assumes "steps lib s cs = Inr s'" and "gnodes (G s) = []"
  shows "s' = s"
  using assms step_no_nodes [OF assms(2)]
  by (cases cs) (auto split: sum.splits)

section \<open>Evaluating the examples\<close>

lemmas eval_defs = lib1_def sim0_def matching_def
  init_def prep_data_def train_model_def update_edges_def step_def
  get_predicted_edges_def compute_features_def select_columns_def feature_names_def dummy_columns_def
  column_value_def pair_features_def louvain_communities_def ebind_def sample_def head_def
  add_negative_examples_def np_unique_def pair_table_def from_pandas_edgelist_def add_nodes_from_def
  add_edge_def add_node_def empty_graph_def degree_def neighbors_def common_neighbors_def digit_char_def
  Let_def


lemma wf_sim_sim0: "wf_sim sim0"
  by (simp add: sim0_def wf_sim_def universe_ok_def simple_table_def)

lemma init_sim0: "init lib1 [(1, 2), (1, 3)] = Inr sim0"
  by (simp add: eval_defs)

lemma trained_sim0: "\<exists>s1 s2. prep_data lib1 sim0 = Inr s1 \<and> train_model lib1 s1 = Inr s2"
  by (simp add: eval_defs)

lemma train_model_Inr:
  assumes "train_model lib s1 = Inr s2"
  shows "\<exists>tr cols m. train_df s1 = Some tr \<and> feature_cols s1 = Some cols
           \<and> lr_fit lib (zip (map (\<lambda>r. map (column_value r) cols) (map snd tr))
                              (map (\<lambda>r. snd (fst r)) tr)) = Inr m
           \<and> s2 = s1\<lparr>model := Some m\<rparr>"
  using assms
  by (auto simp: train_model_def select_columns_def ebind_def split: option.splits sum.splits if_splits)

lemma train_model_fit_error:
  assumes "train_df s = Some tr" and "feature_cols s = Some cols"
    and "select_columns cols (map snd tr) = Inr X"
    and "lr_fit lib (zip X (map (\<lambda>r. snd (fst r)) tr)) = Inl e"
  shows "train_model lib s = Inl e"
  using assms by (simp add: train_model_def ebind_def)

section \<open>A rewiring step never runs short of candidates\<close>

text \<open>
  Claim C1. On a well-formed simulator let \<open>available s r\<close> be the number of non-edge
  pairs over the node universe after the removal of \<open>r\<close> edges. If \<open>r\<close> exceeds it, the
  rewiring step fails: \<open>update_edges\<close> raises, and so does \<open>step\<close>. The exception is the
  \<^verbatim>\<open>ValueError\<close> of \<^verbatim>\<open>DataFrame.sample\<close>, because on a simple edge table such an \<open>r\<close> is
  larger than the number of edges; the source has no exception of its own for the
  condition. The step never returns fewer than \<open>r\<close> new edges: whenever \<open>update_edges\<close>
  returns, the table left by the removal has exactly \<open>available s r\<close> candidates, \<open>r\<close> is
  at most that number, and \<open>get_predicted_edges\<close> has returned exactly \<open>r\<close> pairs.
  \<open>available s r\<close> is the number of candidates whichever \<open>r\<close> edges are removed.
\<close>

theorem rewiring_never_short:
  assumes "wf_sim s"
  shows "(int (available s r) < r \<longrightarrow>
            update_edges lib rnd s r = Inl ValueError \<and> (\<exists>e. step lib rnd s r train = Inl e))
       \<and> (\<forall>s'. update_edges lib rnd s r = Inr s' \<longrightarrow>
            (\<exists>kept new. sample rnd (edge_df s) (int (length (edge_df s)) - r) = Inr kept
               \<and> get_predicted_edges lib (s\<lparr>edge_df := kept\<rparr>) r = Inr new
               \<and> edge_df s' = kept @ new
               \<and> length (candidates (s\<lparr>edge_df := kept\<rparr>)) = available s r
               \<and> nat r \<le> available s r
               \<and> length new = nat r))
       \<and> (\<forall>kept. mset kept \<subseteq># mset (edge_df s) \<longrightarrow>
                 length kept = length (edge_df s) - nat r \<longrightarrow>
                 length (candidates (s\<lparr>edge_df := kept\<rparr>)) = available s r)"
proof -
  note le = wf_sim_edges_le_pairs [OF assms]
  have a: "int (available s r) < r \<longrightarrow>
            update_edges lib rnd s r = Inl ValueError \<and> (\<exists>e. step lib rnd s r train = Inl e)"
  proof
    assume short: "int (available s r) < r"
    have big: "int (length (edge_df s)) < r"
    proof (rule ccontr)
      assume "\<not> int (length (edge_df s)) < r"
      then have "nat r \<le> length (edge_df s)" by linarith
      with le have "nat r \<le> available s r" by (simp add: available_def)
      with short show False by linarith
    qed
    then have u: "update_edges lib rnd s r = Inl ValueError"
      by (simp add: update_edges_def sample_def ebind_def)
    have "\<exists>e. step lib rnd s r train = Inl e"
    proof (cases "step lib rnd s r train")
      case (Inl e)
      then show ?thesis by blast
    next
      case (Inr s')
      then obtain s1 s2 s3 where p: "prep_data lib s = Inr s1" and t: "train_model lib s1 = Inr s2"
        and u2: "update_edges lib rnd s2 r = Inr s3"
        using step_Inr by blast
      have "edge_df s2 = edge_df s" using prep_data_frame [OF p] train_model_frame [OF t] by simp
      with update_edges_range [OF u2] big show ?thesis by simp
    qed
    with u show "update_edges lib rnd s r = Inl ValueError \<and> (\<exists>e. step lib rnd s r train = Inl e)"
      by blast
  qed
  have b: "\<forall>s'. update_edges lib rnd s r = Inr s' \<longrightarrow>
            (\<exists>kept new. sample rnd (edge_df s) (int (length (edge_df s)) - r) = Inr kept
               \<and> get_predicted_edges lib (s\<lparr>edge_df := kept\<rparr>) r = Inr new
               \<and> edge_df s' = kept @ new
               \<and> length (candidates (s\<lparr>edge_df := kept\<rparr>)) = available s r
               \<and> nat r \<le> available s r
               \<and> length new = nat r)"
  proof (intro allI impI)
    fix s'
    assume u: "update_edges lib rnd s r = Inr s'"
    then obtain kept new where k: "sample rnd (edge_df s) (int (length (edge_df s)) - r) = Inr kept"
      and g: "get_predicted_edges lib (s\<lparr>edge_df := kept\<rparr>) r = Inr new"
      and e: "edge_df s' = kept @ new"
      by (auto simp: update_edges_def Let_def ebind_def split: sum.splits)
    note rg = update_edges_range [OF u]
    obtain kept' where "sample rnd (edge_df s) (int (length (edge_df s)) - r) = Inr kept'"
      and "mset kept' \<subseteq># mset (edge_df s)" and "length kept' = length (edge_df s) - nat r"
      using sample_ok [of r "edge_df s" rnd] rg by blast
    with k have sub: "mset kept \<subseteq># mset (edge_df s)"
      and lk: "length kept = length (edge_df s) - nat r" by simp_all
    have c: "length (candidates (s\<lparr>edge_df := kept\<rparr>)) = available s r"
      using candidates_count [OF assms sub] lk by (simp add: available_def)
    have "nat r \<le> length (edge_df s)" using rg by linarith
    with le have av: "nat r \<le> available s r" by (simp add: available_def)
    have "length new = nat r"
      using get_predicted_edges_Inr [OF g] rg c av by simp
    with k g e c av
    show "\<exists>kept new. sample rnd (edge_df s) (int (length (edge_df s)) - r) = Inr kept
               \<and> get_predicted_edges lib (s\<lparr>edge_df := kept\<rparr>) r = Inr new
               \<and> edge_df s' = kept @ new
               \<and> length (candidates (s\<lparr>edge_df := kept\<rparr>)) = available s r
               \<and> nat r \<le> available s r
               \<and> length new = nat r"
      by blast
  qed
  have c: "\<forall>kept. mset kept \<subseteq># mset (edge_df s) \<longrightarrow>
                 length kept = length (edge_df s) - nat r \<longrightarrow>
                 length (candidates (s\<lparr>edge_df := kept\<rparr>)) = available s r"
  proof (intro allI impI)
    fix kept
    assume "mset kept \<subseteq># mset (edge_df s)" and "length kept = length (edge_df s) - nat r"
    then show "length (candidates (s\<lparr>edge_df := kept\<rparr>)) = available s r"
      using candidates_count [OF assms, of kept] by (simp add: available_def)
  qed
  from a b c show ?thesis by blast
qed

text \<open>
  On the path \<open>2 - 1 - 3\<close> three pairs exist, so a removal count of 5 exceeds what is
  available and the step raises; with a removal count of 1 the fitted simulator removes
  one edge and adds one.
\<close>

theorem rewiring_never_short_witness:
  "wf_sim sim0 \<and> available sim0 5 = 3
   \<and> update_edges lib1 (\<lambda>k. 0) sim0 5 = Inl ValueError
   \<and> (\<exists>e. step lib1 (\<lambda>k. 0) sim0 5 True = Inl e)
   \<and> (\<exists>s1 s2 s'. prep_data lib1 sim0 = Inr s1 \<and> train_model lib1 s1 = Inr s2 \<and> wf_sim s2
          \<and> update_edges lib1 (\<lambda>k. 0) s2 1 = Inr s'
          \<and> (\<exists>kept new. sample (\<lambda>k. 0) (edge_df s2) (int (length (edge_df s2)) - 1) = Inr kept
                \<and> get_predicted_edges lib1 (s2\<lparr>edge_df := kept\<rparr>) 1 = Inr new
                \<and> edge_df s' = kept @ new \<and> length new = nat 1))"
proof -
  have av: "available sim0 5 = 3"
    by (simp add: available_def sim0_def pair_table_def)
  then have short: "int (available sim0 5) < 5" by simp
  note th = rewiring_never_short [OF wf_sim_sim0, of 5 lib1 "\<lambda>k. 0" True]
  from th short have f: "update_edges lib1 (\<lambda>k. 0) sim0 5 = Inl ValueError"
    and g: "\<exists>e. step lib1 (\<lambda>k. 0) sim0 5 True = Inl e" by blast+
  have "\<exists>s1 s2 s'. prep_data lib1 sim0 = Inr s1 \<and> train_model lib1 s1 = Inr s2
          \<and> update_edges lib1 (\<lambda>k. 0) s2 1 = Inr s'"
    by (simp add: eval_defs)
  then obtain s1 s2 s' where p: "prep_data lib1 sim0 = Inr s1" and t: "train_model lib1 s1 = Inr s2"
    and u: "update_edges lib1 (\<lambda>k. 0) s2 1 = Inr s'" by blast
  obtain tr cols m where "s2 = sim0\<lparr>train_df := Some tr, feature_cols := Some cols, model := Some m\<rparr>"
    using trained_ready [OF wf_sim_sim0 p t] by blast
  then have wf2: "wf_sim s2" using wf_sim_sim0 by simp
  have "\<exists>kept new. sample (\<lambda>k. 0) (edge_df s2) (int (length (edge_df s2)) - 1) = Inr kept
                \<and> get_predicted_edges lib1 (s2\<lparr>edge_df := kept\<rparr>) 1 = Inr new
                \<and> edge_df s' = kept @ new \<and> length new = nat 1"
    using rewiring_never_short [OF wf2, of 1 lib1 "\<lambda>k. 0" True] u by blast
  with wf_sim_sim0 av f g p t wf2 u show ?thesis by blast
qed

section \<open>The edge count of a rewiring step\<close>

text \<open>
  Claim C2. On a well-formed simulator with \<open>m\<close> edges whose data preparation and fit
  have succeeded (the rewiring step scores with a fitted model), take a removal count
  \<open>r\<close> with \<open>0 \<le> r \<le> m\<close>. Then \<^verbatim>\<open>sample\<close> returns a table \<open>kept\<close> of \<open>m - r\<close> rows of the
  old table, so exactly \<open>r\<close> rows are removed; \<open>get_predicted_edges\<close> on the table \<open>kept\<close>
  returns a list \<open>new\<close> of exactly \<open>r\<close> different candidate pairs, none of them in \<open>kept\<close>;
  \<open>update_edges\<close> returns the simulator with the edge table \<open>kept @ new\<close>, and \<open>step\<close>
  returns it with the graph rebuilt from that table; the table has \<open>m\<close> rows again. That
  at least \<open>r\<close> candidates are available follows from the table being simple.
\<close>

theorem step_keeps_edge_count:
  assumes "wf_sim s" and "prep_data lib s = Inr s1" and "train_model lib s1 = Inr s2"
    and "0 \<le> r" and "r \<le> int (length (edge_df s))"
  shows "\<exists>kept new.
           sample rnd (edge_df s) (int (length (edge_df s)) - r) = Inr kept
           \<and> get_predicted_edges lib (s2\<lparr>edge_df := kept\<rparr>) r = Inr new
           \<and> update_edges lib rnd s2 r = Inr (s2\<lparr>edge_df := kept @ new\<rparr>)
           \<and> step lib rnd s r train =
                Inr (s2\<lparr>edge_df := kept @ new,
                        G := add_nodes_from (node_list s) (from_pandas_edgelist (kept @ new))\<rparr>)
           \<and> mset kept \<subseteq># mset (edge_df s)
           \<and> length kept = length (edge_df s) - nat r
           \<and> size (mset (edge_df s) - mset kept) = nat r
           \<and> length new = nat r \<and> distinct new
           \<and> set new \<subseteq> set (pair_table (node_list s)) - set kept
           \<and> length (kept @ new) = length (edge_df s)"
proof -
  obtain kept new where
    k: "sample rnd (edge_df s) (int (length (edge_df s)) - r) = Inr kept"
    and new: "new = take (nat r) (sort_key (\<lambda>p. - edge_score lib s2 p) (candidates (s\<lparr>edge_df := kept\<rparr>)))"
    and u: "update_edges lib rnd s2 r = Inr (s2\<lparr>edge_df := kept @ new\<rparr>)"
    and st: "step lib rnd s r train =
                Inr (s2\<lparr>edge_df := kept @ new,
                        G := add_nodes_from (node_list s) (from_pandas_edgelist (kept @ new))\<rparr>)"
    and sub: "mset kept \<subseteq># mset (edge_df s)"
    and lk: "length kept = length (edge_df s) - nat r" and ln: "length new = nat r"
    using step_wf [OF assms, of rnd train] by blast
  have e2: "edge_df s2 = edge_df s"
    using prep_data_frame [OF assms(2)] train_model_frame [OF assms(3)] by simp
  from u k obtain new' where g': "get_predicted_edges lib (s2\<lparr>edge_df := kept\<rparr>) r = Inr new'"
    and eq: "s2\<lparr>edge_df := kept @ new'\<rparr> = s2\<lparr>edge_df := kept @ new\<rparr>"
    by (auto simp: update_edges_def Let_def ebind_def e2 split: sum.splits)
  from eq have "edge_df (s2\<lparr>edge_df := kept @ new'\<rparr>) = edge_df (s2\<lparr>edge_df := kept @ new\<rparr>)"
    by (rule arg_cong)
  then have "new' = new" by simp
  with g' have g: "get_predicted_edges lib (s2\<lparr>edge_df := kept\<rparr>) r = Inr new" by simp
  have "set new \<subseteq> set (candidates (s\<lparr>edge_df := kept\<rparr>))"
    unfolding new using set_take_subset [of "nat r"] by fastforce
  then have cand: "set new \<subseteq> set (pair_table (node_list s)) - set kept"
    by (simp add: set_candidates)
  have dist: "distinct new"
    unfolding new using assms(1) by (simp add: distinct_candidates wf_sim_def)
  have nr: "nat r \<le> length (edge_df s)" using assms(4,5) by linarith
  then have len: "length (kept @ new) = length (edge_df s)" using lk ln by simp
  have "size (mset (edge_df s) - mset kept) = size (mset (edge_df s)) - size (mset kept)"
    by (rule size_Diff_submset [OF sub])
  then have rem: "size (mset (edge_df s) - mset kept) = nat r" using lk nr by simp
  from k g u st sub lk rem ln dist cand len show ?thesis by blast
qed

text \<open>
  On the matching \<open>1 - 2\<close>, \<open>3 - 4\<close> with removal count 1 the sample keeps \<open>(1, 2)\<close>, the
  prediction is \<open>(1, 3)\<close>, and the step returns the table \<open>(1, 2)\<close>, \<open>(1, 3)\<close>: the edge
  \<open>(3, 4)\<close> is gone and \<open>(1, 3)\<close> is new.
\<close>

theorem step_keeps_edge_count_witness:
  "\<exists>s0 s1 s2. init lib1 matching = Inr s0 \<and> wf_sim s0 \<and> edge_df s0 = [(1, 2), (3, 4)]
      \<and> prep_data lib1 s0 = Inr s1 \<and> train_model lib1 s1 = Inr s2
      \<and> sample (\<lambda>k. 0) (edge_df s0) (int (length (edge_df s0)) - 1) = Inr [(1, 2)]
      \<and> get_predicted_edges lib1 (s2\<lparr>edge_df := [(1, 2)]\<rparr>) 1 = Inr [(1, 3)]
      \<and> (\<exists>s'. step lib1 (\<lambda>k. 0) s0 1 True = Inr s' \<and> edge_df s' = [(1, 2), (1, 3)])"
proof -
  have "\<exists>s0 s1 s2. init lib1 matching = Inr s0 \<and> edge_df s0 = [(1, 2), (3, 4)]
      \<and> prep_data lib1 s0 = Inr s1 \<and> train_model lib1 s1 = Inr s2
      \<and> get_predicted_edges lib1 (s2\<lparr>edge_df := [(1, 2)]\<rparr>) 1 = Inr [(1, 3)]"
    by (simp add: eval_defs)
  then obtain s0 s1 s2 where i: "init lib1 matching = Inr s0" and e: "edge_df s0 = [(1, 2), (3, 4)]"
    and p: "prep_data lib1 s0 = Inr s1" and t: "train_model lib1 s1 = Inr s2"
    and g: "get_predicted_edges lib1 (s2\<lparr>edge_df := [(1, 2)]\<rparr>) 1 = Inr [(1, 3)]"
    by blast
  have wf: "wf_sim s0"
    by (rule init_wf [OF i]) (simp_all add: matching_def simple_table_def)
  have sm: "sample (\<lambda>k. 0) (edge_df s0) (int (length (edge_df s0)) - 1) = Inr [(1, 2)]"
    by (simp add: e sample_def)
  have r: "(0::int) \<le> 1" "1 \<le> int (length (edge_df s0))" by (simp_all add: e)
  obtain kept new where k: "sample (\<lambda>k. 0) (edge_df s0) (int (length (edge_df s0)) - 1) = Inr kept"
    and g': "get_predicted_edges lib1 (s2\<lparr>edge_df := kept\<rparr>) 1 = Inr new"
    and st: "step lib1 (\<lambda>k. 0) s0 1 True =
                Inr (s2\<lparr>edge_df := kept @ new,
                        G := add_nodes_from (node_list s0) (from_pandas_edgelist (kept @ new))\<rparr>)"
    using step_keeps_edge_count [OF wf p t r, of "\<lambda>k. 0" True] by blast
  from k sm have kept: "kept = [(1, 2)]" by simp
  with g g' have new: "new = [(1, 3)]" by simp
  have "\<exists>s'. step lib1 (\<lambda>k. 0) s0 1 True = Inr s' \<and> edge_df s' = [(1, 2), (1, 3)]"
    using st by (simp add: kept new)
  with i wf e p t sm g show ?thesis by blast
qed

section \<open>Which pairs a rewiring pass adds\<close>



section \<open>The community partition\<close>

text \<open>
  Claim C5. \<open>init\<close> computes \<open>comm_dict\<close> and \<open>comms\<close> with one call of
  \<open>louvain_communities\<close> on the initial graph. In every state reached from there by calls
  of \<open>step\<close> both are unchanged, none of \<open>prep_data\<close>, \<open>train_model\<close>, \<open>update_edges\<close> and
  \<open>step\<close> changes them, and \<open>modularity\<close> is the library's modularity of the current graph
  under the initial partition.
\<close>

theorem partition_fixed:
  assumes "init lib df = Inr s0" and "steps lib s0 cs = Inr s"
  shows "louvain_communities lib (from_pandas_edgelist df) = Inr (comm_dict s0, comms s0)
       \<and> comm_dict s = comm_dict s0 \<and> comms s = comms s0
       \<and> modularity lib s = nx_modularity lib (G s) (comms s0)
       \<and> (\<forall>s'. prep_data lib s = Inr s' \<longrightarrow> comm_dict s' = comm_dict s0 \<and> comms s' = comms s0)
       \<and> (\<forall>s'. train_model lib s = Inr s' \<longrightarrow> comm_dict s' = comm_dict s0 \<and> comms s' = comms s0)
       \<and> (\<forall>rnd r s'. update_edges lib rnd s r = Inr s' \<longrightarrow>
              comm_dict s' = comm_dict s0 \<and> comms s' = comms s0)
       \<and> (\<forall>rnd r train s'. step lib rnd s r train = Inr s' \<longrightarrow>
              comm_dict s' = comm_dict s0 \<and> comms s' = comms s0)"
proof -
  have fr: "comm_dict s = comm_dict s0 \<and> comms s = comms s0"
    using steps_frame [OF assms(2)] by simp
  have "louvain_communities lib (from_pandas_edgelist df) = Inr (comm_dict s0, comms s0)"
    using init_result [OF assms(1)] by simp
  moreover have "modularity lib s = nx_modularity lib (G s) (comms s0)"
    using fr by (simp add: modularity_def)
  moreover have "\<forall>s'. prep_data lib s = Inr s' \<longrightarrow> comm_dict s' = comm_dict s0 \<and> comms s' = comms s0"
    using fr prep_data_frame by metis
  moreover have "\<forall>s'. train_model lib s = Inr s' \<longrightarrow> comm_dict s' = comm_dict s0 \<and> comms s' = comms s0"
    using fr train_model_frame by metis
  moreover have "\<forall>rnd r s'. update_edges lib rnd s r = Inr s' \<longrightarrow>
              comm_dict s' = comm_dict s0 \<and> comms s' = comms s0"
    using fr update_edges_frame by metis
  moreover have "\<forall>rnd r train s'. step lib rnd s r train = Inr s' \<longrightarrow>
              comm_dict s' = comm_dict s0 \<and> comms s' = comms s0"
    using fr step_frame by metis
  ultimately show ?thesis using fr by blast
qed

theorem partition_fixed_witness:
  "init lib1 [(1, 2), (1, 3)] = Inr sim0 \<and>
   (\<exists>s. steps lib1 sim0 [(\<lambda>k. 0, 1, True)] = Inr s
       \<and> edge_df s = [(1, 2), (1, 3)]
       \<and> comm_dict s = comm_dict sim0 \<and> comms s = comms sim0
       \<and> modularity lib1 s = nx_modularity lib1 (G s) (comms sim0))"
proof -
  have "\<exists>s. steps lib1 sim0 [(\<lambda>k. 0, 1, True)] = Inr s \<and> edge_df s = [(1, 2), (1, 3)]"
    by (simp add: eval_defs)
  then obtain s where st: "steps lib1 sim0 [(\<lambda>k. 0, 1, True)] = Inr s"
    and e: "edge_df s = [(1, 2), (1, 3)]" by blast
  have "comm_dict s = comm_dict sim0 \<and> comms s = comms sim0
       \<and> modularity lib1 s = nx_modularity lib1 (G s) (comms sim0)"
    using partition_fixed [OF init_sim0 st] by blast
  with init_sim0 st e show ?thesis by blast
qed

section \<open>Persistence of nodes\<close>

text \<open>
  Claim C6. Every node of the initial node universe is a node of the graph after any
  number of steps, with or without incident edges; the node universe itself never
  changes.
\<close>

theorem nodes_persist:
  assumes "init lib df = Inr s0" and "steps lib s0 cs = Inr s" and "x \<in> set (node_list s0)"
  shows "x \<in> set (gnodes (G s)) \<and> node_list s = node_list s0"
proof -
  have "set (node_list s0) \<subseteq> set (gnodes (G s0))"
    using init_result [OF assms(1)] by simp
  then have "set (node_list s) \<subseteq> set (gnodes (G s))"
    by (rule steps_nodes [OF assms(2)])
  moreover have "node_list s = node_list s0" using steps_frame [OF assms(2)] by simp
  ultimately show ?thesis using assms(3) by auto
qed

text \<open>
  On the matching \<open>1 - 2\<close>, \<open>3 - 4\<close> one step removes \<open>(3, 4)\<close> and adds \<open>(1, 3)\<close>: node 4
  loses its only edge and stays in the graph with degree 0.
\<close>

theorem nodes_persist_witness:
  "\<exists>s0 s. init lib1 matching = Inr s0 \<and> steps lib1 s0 [(\<lambda>k. 0, 1, True)] = Inr s
      \<and> 4 \<in> set (node_list s0) \<and> edge_df s = [(1, 2), (1, 3)] \<and> degree (G s) 4 = 0
      \<and> 4 \<in> set (gnodes (G s))"
proof -
  have "\<exists>s0 s. init lib1 matching = Inr s0 \<and> steps lib1 s0 [(\<lambda>k. 0, 1, True)] = Inr s
      \<and> 4 \<in> set (node_list s0) \<and> edge_df s = [(1, 2), (1, 3)] \<and> degree (G s) 4 = 0"
    by (auto simp: eval_defs)
  then obtain s0 s where i: "init lib1 matching = Inr s0"
    and st: "steps lib1 s0 [(\<lambda>k. 0, 1, True)] = Inr s"
    and x: "4 \<in> set (node_list s0)" and e: "edge_df s = [(1, 2), (1, 3)]" and d: "degree (G s) 4 = 0"
    by blast
  have "4 \<in> set (gnodes (G s))" using nodes_persist [OF i st x] by blast
  with i st x e d show ?thesis by blast
qed

section \<open>The edge table stays simple\<close>

text \<open>
  Claim C9. When the initial edge table has pairwise different rows with
  \<open>source < target\<close>, so has the edge table after any number of steps: no self-loop, no
  pair twice, and no pair in both orientations. The number of rows does not change.
\<close>

theorem edge_table_stays_simple:
  assumes "init lib df = Inr s0" and "simple_table df" and "steps lib s0 cs = Inr s"
  shows "distinct (edge_df s) \<and> (\<forall>e\<in>set (edge_df s). fst e < snd e)
       \<and> (\<forall>e\<in>set (edge_df s). (snd e, fst e) \<notin> set (edge_df s))
       \<and> length (edge_df s) = length df"
proof -
  have main: "distinct (edge_df s) \<and> (\<forall>e\<in>set (edge_df s). fst e < snd e)
       \<and> length (edge_df s) = length df"
  proof (cases "df = []")
    case True
    with assms(1) have "gnodes (G s0) = []" "edge_df s0 = []" using init_empty by auto
    with assms(3) have "edge_df s = []" using steps_no_nodes by auto
    with True show ?thesis by simp
  next
    case False
    have "wf_sim s0" by (rule init_wf [OF assms(1,2) False])
    then have "wf_sim s \<and> length (edge_df s) = length (edge_df s0)"
      by (rule steps_wf [OF assms(3)])
    moreover have "edge_df s0 = df" using init_result [OF assms(1)] by simp
    ultimately show ?thesis by (simp add: wf_sim_def simple_table_def list_all_iff)
  qed
  have "\<forall>e\<in>set (edge_df s). (snd e, fst e) \<notin> set (edge_df s)"
  proof
    fix e assume e: "e \<in> set (edge_df s)"
    show "(snd e, fst e) \<notin> set (edge_df s)"
    proof
      assume "(snd e, fst e) \<in> set (edge_df s)"
      with main have "fst (snd e, fst e) < snd (snd e, fst e)" by blast
      moreover from main e have "fst e < snd e" by blast
      ultimately show False by simp
    qed
  qed
  with main show ?thesis by blast
qed

theorem edge_table_stays_simple_witness:
  "simple_table matching \<and>
   (\<exists>s0 s. init lib1 matching = Inr s0 \<and> steps lib1 s0 [(\<lambda>k. 0, 1, True)] = Inr s
      \<and> edge_df s = [(1, 2), (1, 3)] \<and> distinct (edge_df s) \<and> length (edge_df s) = length matching)"
proof -
  have sm: "simple_table matching" by (simp add: matching_def simple_table_def)
  have "\<exists>s0 s. init lib1 matching = Inr s0 \<and> steps lib1 s0 [(\<lambda>k. 0, 1, True)] = Inr s
      \<and> edge_df s = [(1, 2), (1, 3)]"
    by (simp add: eval_defs)
  then obtain s0 s where i: "init lib1 matching = Inr s0"
    and st: "steps lib1 s0 [(\<lambda>k. 0, 1, True)] = Inr s" and e: "edge_df s = [(1, 2), (1, 3)]"
    by blast
  have "distinct (edge_df s) \<and> length (edge_df s) = length matching"
    using edge_table_stays_simple [OF i sm st] by blast
  with sm i st e show ?thesis by blast
qed

section \<open>The argument \<open>train\<close>\<close>

text \<open>
  Claim C10. \<open>step\<close> does not read its argument \<open>train\<close>: for every state, removal count
  and random draws the calls with \<open>train = True\<close> and \<open>train = False\<close> give the same
  result. Whatever the argument, a step that returns has fitted the model anew on the
  table that its own data preparation produced.
\<close>

theorem step_ignores_train:
  "step lib rnd s r True = step lib rnd s r False
   \<and> (\<forall>train s'. step lib rnd s r train = Inr s' \<longrightarrow>
         (\<exists>s1 tr cols m. prep_data lib s = Inr s1
             \<and> train_df s1 = Some tr \<and> feature_cols s1 = Some cols
             \<and> lr_fit lib (zip (map (\<lambda>r. map (column_value r) cols) (map snd tr))
                                (map (\<lambda>r. snd (fst r)) tr)) = Inr m
             \<and> model s' = Some m))"
proof -
  have a: "step lib rnd s r True = step lib rnd s r False" by (simp add: step_def)
  have b: "\<forall>train s'. step lib rnd s r train = Inr s' \<longrightarrow>
         (\<exists>s1 tr cols m. prep_data lib s = Inr s1
             \<and> train_df s1 = Some tr \<and> feature_cols s1 = Some cols
             \<and> lr_fit lib (zip (map (\<lambda>r. map (column_value r) cols) (map snd tr))
                                (map (\<lambda>r. snd (fst r)) tr)) = Inr m
             \<and> model s' = Some m)"
  proof (intro allI impI)
    fix train s'
    assume "step lib rnd s r train = Inr s'"
    then obtain s1 s2 s3 where p: "prep_data lib s = Inr s1" and t: "train_model lib s1 = Inr s2"
      and u: "update_edges lib rnd s2 r = Inr s3"
      and s': "s' = s3\<lparr>G := add_nodes_from (node_list s3) (from_pandas_edgelist (edge_df s3))\<rparr>"
      using step_Inr by blast
    obtain tr cols m where tr: "train_df s1 = Some tr" and cols: "feature_cols s1 = Some cols"
      and fit: "lr_fit lib (zip (map (\<lambda>r. map (column_value r) cols) (map snd tr))
                              (map (\<lambda>r. snd (fst r)) tr)) = Inr m"
      and s2: "s2 = s1\<lparr>model := Some m\<rparr>"
      using train_model_Inr [OF t] by blast
    have "model s' = Some m" using update_edges_frame [OF u] by (simp add: s' s2)
    with p tr cols fit
    show "\<exists>s1 tr cols m. prep_data lib s = Inr s1
             \<and> train_df s1 = Some tr \<and> feature_cols s1 = Some cols
             \<and> lr_fit lib (zip (map (\<lambda>r. map (column_value r) cols) (map snd tr))
                                (map (\<lambda>r. snd (fst r)) tr)) = Inr m
             \<and> model s' = Some m"
      by blast
  qed
  from a b show ?thesis by blast
qed

theorem step_ignores_train_witness:
  "step lib1 (\<lambda>k. 0) sim0 1 True = step lib1 (\<lambda>k. 0) sim0 1 False
   \<and> (\<exists>s'. step lib1 (\<lambda>k. 0) sim0 1 False = Inr s' \<and> edge_df s' = [(1, 2), (1, 3)]
         \<and> (\<exists>m. model s' = Some m))"
proof -
  have "\<exists>s'. step lib1 (\<lambda>k. 0) sim0 1 False = Inr s' \<and> edge_df s' = [(1, 2), (1, 3)]"
    by (simp add: eval_defs)
  then obtain s' where st: "step lib1 (\<lambda>k. 0) sim0 1 False = Inr s'"
    and e: "edge_df s' = [(1, 2), (1, 3)]" by blast
  note th = step_ignores_train [of lib1 "\<lambda>k. 0" sim0 1]
  from th have a: "step lib1 (\<lambda>k. 0) sim0 1 True = step lib1 (\<lambda>k. 0) sim0 1 False" by blast
  from th st have "\<exists>m. model s' = Some m" by blast
  with a st e show ?thesis by blast
qed

end
